theory Spec2Isabelle
  imports Complex_Main "HOL-Library.Word" "HOL-Library.Sublist"
begin

unbundle bit_operations_syntax

section \<open>Numbers and register frames\<close>

text \<open>
  The JavaScript sources compute with Numbers. A register byte is an element of a
  \<^verbatim>\<open>Uint8Array\<close>, so it is an \<open>8 word\<close>. The bitwise operators \<^verbatim>\<open>&\<close>, \<^verbatim>\<open>|\<close> and
  \<^verbatim>\<open><<\<close> convert their operands to 32-bit integers and give a signed 32-bit
  integer: their results are \<open>32 word\<close> values, read back as a Number by \<open>sint\<close>.
  All other arithmetic is on \<open>real\<close>: the rounding of IEEE doubles and the
  values NaN and Infinity are outside this model.
\<close>

type_synonym byte = "8 word"
type_synonym int32 = "32 word"

text \<open>A frame \<^verbatim>\<open>{ regs }\<close> holds the \<^verbatim>\<open>Uint8Array\<close> slice of its registers.\<close>

type_synonym regs = "byte list"

text \<open>
  \<^verbatim>\<open>regs[i]\<close> as an operand of a bitwise operator. Reading past the end of a typed
  array gives \<^verbatim>\<open>undefined\<close>, which the operator converts to 0; nothing is thrown.
\<close>

definition reg :: "regs \<Rightarrow> nat \<Rightarrow> int32" where
  "reg rs i = (if i < length rs then ucast (rs ! i) else 0)"

text \<open>The value of a bitwise result as a Number.\<close>

definition num :: "int32 \<Rightarrow> real" where
  "num w = real_of_int (sint w)"

section \<open>The envelope level (\<^verbatim>\<open>envelopeLevel\<close>, ayReplayer.js)\<close>

text \<open>
  \<^verbatim>\<open>phase % 1\<close>: the remainder of JavaScript takes the sign of the dividend, that
  is, the quotient is truncated towards zero.
\<close>

definition jsMod1 :: "real \<Rightarrow> real" where
  "jsMod1 x = (if 0 \<le> x then x - of_int \<lfloor>x\<rfloor> else x - of_int \<lceil>x\<rceil>)"

definition envelopeLevel :: "real \<Rightarrow> int32 \<Rightarrow> real" where
  "envelopeLevel phase shape =
     (let C = (shape AND 8 \<noteq> 0); A = (shape AND 4 \<noteq> 0);
          Alt = (shape AND 2 \<noteq> 0); Hold = (shape AND 1 \<noteq> 0);
          p = jsMod1 phase;
          lvl = (if \<not> Alt \<and> \<not> Hold \<and> A then p
                 else if \<not> Alt \<and> Hold \<and> A then min 1 (p * 2)
                 else if Alt \<and> \<not> Hold then (if p < 0.5 then p * 2 else 1 - (p - 0.5) * 2)
                 else 1 - p)
      in max 0 (min 1 lvl))"

section \<open>The replayer state (class \<^verbatim>\<open>AYReplayer\<close>)\<close>

text \<open>
  A tone voice \<^verbatim>\<open>{ osc, gain, mute, volUser }\<close>. Of the oscillator and the gain node the
  model keeps the value last given to \<^verbatim>\<open>setValueAtTime\<close>: \<open>freq\<close> and \<open>gain\<close>.
\<close>

record voice =
  freq :: real
  gain :: real
  mute :: bool
  volUser :: real

text \<open>The noise path \<^verbatim>\<open>{ src, bp, gain, volUser }\<close>: filter frequency, gain, user volume.\<close>

record noise =
  bpFreq :: real
  ngain :: real
  nvolUser :: real

text \<open>\<^verbatim>\<open>this.env = { periodSec, shape, phase, level, lastUpdate }\<close>.\<close>

record envelope =
  periodSec :: real
  shape :: int32
  phase :: real
  level :: real
  lastUpdate :: real

text \<open>
  The replayer. \<open>timer\<close> is \<open>None\<close> for \<^verbatim>\<open>null\<close>; \<open>Some i\<close> stands for the handle of a
  running interval whose callback holds the frame counter \<open>i\<close> of \<^verbatim>\<open>play\<close>.
\<close>

record replayer =
  rate :: real
  frames :: "regs list"
  timer :: "nat option"
  chA :: voice
  chB :: voice
  chC :: voice
  Noise :: noise
  env :: envelope

text \<open>The state the constructor builds (\<^verbatim>\<open>mkVoice\<close>, \<^verbatim>\<open>mkNoise\<close>).\<close>

definition mkVoice :: voice where
  "mkVoice = \<lparr> freq = 440, gain = 0, mute = False, volUser = 1 \<rparr>"

definition mkNoise :: noise where
  "mkNoise = \<lparr> bpFreq = 4000, ngain = 0, nvolUser = 0.15 \<rparr>"

definition newReplayer :: replayer where
  "newReplayer =
     \<lparr> rate = 50, frames = [], timer = None,
       chA = mkVoice, chB = mkVoice, chC = mkVoice, Noise = mkNoise,
       env = \<lparr> periodSec = 0.05, shape = 0, phase = 0, level = 0, lastUpdate = 0 \<rparr> \<rparr>"

section \<open>Decoding a frame (\<^verbatim>\<open>applyRegs\<close>)\<close>

definition clock :: real where
  "clock = 1000000"

text \<open>\<^verbatim>\<open>((regs[hi] & 0x0F) << 8) | regs[lo]\<close>: \<open>perA\<close>, \<open>perB\<close>, \<open>perC\<close> for \<open>lo = 0, 2, 4\<close>.\<close>

definition tonePer :: "regs \<Rightarrow> nat \<Rightarrow> int32" where
  "tonePer rs lo = (push_bit 8 (reg rs (lo + 1) AND 0x0F)) OR reg rs lo"

text \<open>\<^verbatim>\<open>per ? clock / (16 * per) : 0.0001\<close>.\<close>

definition toneFreq :: "int32 \<Rightarrow> real" where
  "toneFreq per = (if per \<noteq> 0 then clock / (16 * num per) else 0.0001)"

text \<open>\<^verbatim>\<open>((regs[12] << 8) | regs[11]) || 1\<close>.\<close>

definition envPeriodRaw :: "regs \<Rightarrow> int32" where
  "envPeriodRaw rs = (push_bit 8 (reg rs 12)) OR reg rs 11"

definition envPeriod :: "regs \<Rightarrow> int32" where
  "envPeriod rs = (if envPeriodRaw rs \<noteq> 0 then envPeriodRaw rs else 1)"

text \<open>\<^verbatim>\<open>envPeriod / clock * 16 * 2\<close>.\<close>

definition periodSecOf :: "regs \<Rightarrow> real" where
  "periodSecOf rs = num (envPeriod rs) / clock * 16 * 2"

text \<open>
  The divisor \<^verbatim>\<open>this.env.periodSec || 0.001\<close> of the phase update. A division by zero
  would give Infinity or NaN in JavaScript, so the divisor is a constant of its own.
\<close>

definition phaseDivisor :: "envelope \<Rightarrow> real" where
  "phaseDivisor e = (if periodSec e \<noteq> 0 then periodSec e else 0.001)"

text \<open>
  The envelope block of \<^verbatim>\<open>applyRegs\<close>: re-trigger when the shape or the period changed,
  else advance the phase. \<^verbatim>\<open>this.env.lastUpdate || now\<close> takes \<open>now\<close> for a last update
  of 0.
\<close>

definition updateEnv :: "regs \<Rightarrow> real \<Rightarrow> envelope \<Rightarrow> envelope" where
  "updateEnv rs now e =
     (let envShape = reg rs 13 AND 0x0F;
          pSec = periodSecOf rs
      in if envShape \<noteq> shape e \<or> \<bar>periodSec e - pSec\<bar> > 1 / 1000000
         then e\<lparr> shape := envShape, periodSec := pSec, phase := 0, level := 1,
                 lastUpdate := now \<rparr>
         else
           (let dt = now - (if lastUpdate e \<noteq> 0 then lastUpdate e else now);
                ph = phase e + dt / phaseDivisor e
            in e\<lparr> lastUpdate := now, phase := ph, level := envelopeLevel ph (shape e) \<rparr>))"

text \<open>\<open>envA = (volAReg & 0x10) !== 0\<close> and \<open>volA = volAReg & 0x0F\<close>, for register 8, 9 or 10.\<close>

definition envFlag :: "regs \<Rightarrow> nat \<Rightarrow> bool" where
  "envFlag rs v = (reg rs v AND 0x10 \<noteq> 0)"

definition vol :: "regs \<Rightarrow> nat \<Rightarrow> int32" where
  "vol rs v = reg rs v AND 0x0F"

text \<open>
  \<^verbatim>\<open>((mixer & mbit) === 0) && (envX || volX > 0) && !this.X.mute\<close>: the tone switch with
  \<open>mbit = 1, 2, 4\<close> and each disjunct of \<open>noiseOn\<close> with \<open>mbit = 8, 16, 32\<close>.
\<close>

definition pathOn :: "regs \<Rightarrow> int32 \<Rightarrow> nat \<Rightarrow> voice \<Rightarrow> bool" where
  "pathOn rs mbit v x =
     ((reg rs 7 AND mbit = 0) \<and> (envFlag rs v \<or> num (vol rs v) > 0) \<and> \<not> mute x)"

text \<open>\<^verbatim>\<open>envX ? this.env.level : (volX / 15)\<close>.\<close>

definition envGain :: "regs \<Rightarrow> nat \<Rightarrow> envelope \<Rightarrow> real" where
  "envGain rs v e = (if envFlag rs v then level e else num (vol rs v) / 15)"

text \<open>The frequency and gain of one tone voice, as \<^verbatim>\<open>setValueAtTime\<close> sets them.\<close>

definition setVoice :: "regs \<Rightarrow> nat \<Rightarrow> int32 \<Rightarrow> nat \<Rightarrow> envelope \<Rightarrow> voice \<Rightarrow> voice" where
  "setVoice rs lo mbit v e x =
     x\<lparr> freq := toneFreq (tonePer rs lo),
        gain := (if pathOn rs mbit v x then envGain rs v e * volUser x else 0) \<rparr>"

definition noiseOn :: "regs \<Rightarrow> replayer \<Rightarrow> bool" where
  "noiseOn rs r =
     (pathOn rs 0x08 8 (chA r) \<or> pathOn rs 0x10 9 (chB r) \<or> pathOn rs 0x20 10 (chC r))"

definition applyRegs :: "regs \<Rightarrow> real \<Rightarrow> replayer \<Rightarrow> replayer" where
  "applyRegs rs now r =
     (let noiseFreq = reg rs 6 AND 0x1F;
          e = updateEnv rs now (env r);
          nf = (num noiseFreq * 200) + 1000
      in r\<lparr> env := e,
            chA := setVoice rs 0 0x01 8 e (chA r),
            chB := setVoice rs 2 0x02 9 e (chB r),
            chC := setVoice rs 4 0x04 10 e (chC r),
            Noise := (Noise r)\<lparr> bpFreq := nf,
                                 ngain := (if noiseOn rs r then nvolUser (Noise r) else 0) \<rparr> \<rparr>)"

section \<open>User controls (\<^verbatim>\<open>setUserControls\<close>)\<close>

text \<open>
  The argument object of \<^verbatim>\<open>setUserControls\<close>. A volume is \<open>None\<close> when the property is
  \<^verbatim>\<open>undefined\<close> or \<^verbatim>\<open>null\<close>, so that \<^verbatim>\<open>??\<close> keeps the stored scalar, and otherwise
  \<open>Some v\<close> for the number \<open>v\<close> that \<^verbatim>\<open>parseFloat\<close> reads from it. A mute flag is the
  truth value \<^verbatim>\<open>!!muteX\<close>.
\<close>

record controls =
  muteA :: bool
  muteB :: bool
  muteC :: bool
  volA :: "real option"
  volB :: "real option"
  volC :: "real option"
  volN :: "real option"

definition parseVol :: "real option \<Rightarrow> real \<Rightarrow> real" where
  "parseVol v cur = (case v of Some x \<Rightarrow> x | None \<Rightarrow> cur)"

definition setUserControls :: "controls \<Rightarrow> replayer \<Rightarrow> replayer" where
  "setUserControls c r =
     r\<lparr> chA := (chA r)\<lparr> mute := muteA c, volUser := parseVol (volA c) (volUser (chA r)) \<rparr>,
        chB := (chB r)\<lparr> mute := muteB c, volUser := parseVol (volB c) (volUser (chB r)) \<rparr>,
        chC := (chC r)\<lparr> mute := muteC c, volUser := parseVol (volC c) (volUser (chC r)) \<rparr>,
        Noise := (Noise r)\<lparr> nvolUser := parseVol (volN c) (nvolUser (Noise r)) \<rparr> \<rparr>"

section \<open>Transport controls (\<^verbatim>\<open>load\<close>, \<^verbatim>\<open>play\<close>, \<^verbatim>\<open>stop\<close>)\<close>

text \<open>
  \<^verbatim>\<open>load({ frames, rate = 50 })\<close>: \<^verbatim>\<open>frames || []\<close> and the default rate, with \<open>None\<close> for a
  property that is \<^verbatim>\<open>undefined\<close>.
\<close>

definition load :: "regs list option \<Rightarrow> real option \<Rightarrow> replayer \<Rightarrow> replayer" where
  "load fs rt r =
     r\<lparr> frames := (case fs of Some xs \<Rightarrow> xs | None \<Rightarrow> []),
        rate := (case rt of Some x \<Rightarrow> x | None \<Rightarrow> 50) \<rparr>"

text \<open>
  \<^verbatim>\<open>play\<close> returns at once when a timer is stored or the track is empty; otherwise it
  starts an interval whose callback counts from \<open>i = 0\<close>. The handle that
  \<^verbatim>\<open>setInterval\<close> returns is a positive integer, hence truthy.
\<close>

definition play :: "replayer \<Rightarrow> replayer" where
  "play r = (if timer r \<noteq> None \<or> length (frames r) = 0 then r else r\<lparr> timer := Some 0 \<rparr>)"

definition stop :: "replayer \<Rightarrow> replayer" where
  "stop r = (if timer r \<noteq> None then r\<lparr> timer := None \<rparr> else r)"

text \<open>One firing of the interval callback of \<^verbatim>\<open>play\<close> at audio-clock time \<open>now\<close>.\<close>

definition playTick :: "real \<Rightarrow> replayer \<Rightarrow> replayer" where
  "playTick now r =
     (case timer r of
        None \<Rightarrow> r
      | Some i \<Rightarrow>
          if i \<ge> length (frames r) then stop r
          else applyRegs (frames r ! i) now (r\<lparr> timer := Some (i + 1) \<rparr>))"

section \<open>The lookahead scheduler (\<^verbatim>\<open>startFrames\<close>, \<^verbatim>\<open>stopFrames\<close>)\<close>

text \<open>
  The module state of the page script together with the variables that the interval
  callback of \<^verbatim>\<open>startFrames\<close> closes over (\<open>trackFrames\<close>, \<open>spf\<close>, \<open>nextTime\<close>).
  \<open>lookaheadId\<close> is \<open>True\<close> while an interval handle is stored. Two fields are a
  record of what happened and are read by no operation: \<open>applied\<close> lists the frame
  indices passed to \<^verbatim>\<open>applyRegs\<close>, in the order of the calls, and \<open>stops\<close> counts the
  calls of \<^verbatim>\<open>stopFrames\<close> that cleared an interval, both since the last
  \<^verbatim>\<open>startFrames\<close>.
\<close>

record player =
  rep :: replayer
  lookaheadId :: bool
  frameIdx :: nat
  frameRate :: real
  trackFrames :: "regs list"
  spf :: real
  nextTime :: real
  applied :: "nat list"
  stops :: nat

definition ahead :: real where
  "ahead = 0.08"

definition stopFrames :: "player \<Rightarrow> player" where
  "stopFrames s = (if lookaheadId s then s\<lparr> lookaheadId := False, stops := stops s + 1 \<rparr> else s)"

text \<open>
  \<^verbatim>\<open>startFrames(frames, rate)\<close> called at audio-clock time \<open>ct\<close>. For \<open>rate = 0\<close> the
  script computes \<^verbatim>\<open>1 / 0 = Infinity\<close>, which is outside the model.
\<close>

definition startFrames :: "regs list \<Rightarrow> real \<Rightarrow> real \<Rightarrow> player \<Rightarrow> player" where
  "startFrames fs rt ct s =
     (stopFrames s)\<lparr> frameIdx := 0, frameRate := rt, trackFrames := fs, spf := 1 / rt,
                     nextTime := ct, lookaheadId := True, applied := [], stops := 0 \<rparr>"

text \<open>
  The \<^verbatim>\<open>while\<close> loop of the interval callback, at audio-clock time \<open>ct\<close> (the clock
  does not advance while the callback runs).
\<close>

function lookahead :: "real \<Rightarrow> player \<Rightarrow> player" where
  "lookahead ct s =
     (if nextTime s < ct + ahead then
        (if frameIdx s \<ge> length (trackFrames s) then stopFrames s
         else lookahead ct
                (s\<lparr> rep := applyRegs (trackFrames s ! frameIdx s) ct (rep s),
                    applied := applied s @ [frameIdx s],
                    frameIdx := frameIdx s + 1,
                    nextTime := nextTime s + spf s \<rparr>))
      else s)"
  by pat_completeness auto
termination
  by (relation "measure (\<lambda>(ct, s). length (trackFrames s) - frameIdx s)") auto

declare lookahead.simps [simp del]

text \<open>One wake-up: the callback runs only while its interval has not been cleared.\<close>

definition wakeUp :: "real \<Rightarrow> player \<Rightarrow> player" where
  "wakeUp ct s = (if lookaheadId s then lookahead ct s else s)"

text \<open>The wake-ups at the successive clock readings \<open>cts\<close>.\<close>

fun wakeUps :: "real list \<Rightarrow> player \<Rightarrow> player" where
  "wakeUps [] s = s"
| "wakeUps (ct # cts) s = wakeUps cts (wakeUp ct s)"

section \<open>The YM parser (\<^verbatim>\<open>parseYM\<close>, \<^verbatim>\<open>loadAndParse\<close>) and the load button\<close>

datatype error =
    UnsupportedYM string
  | NoYMInArchive
  | AYDetected
  | AYUnrecognised
  | UnsupportedFormat
  | NoFileChosen

record meta =
  version :: string
  mframes :: int
  mrate :: real

record parsed =
  meta :: meta
  pframes :: "regs list"

text \<open>
  \<^verbatim>\<open>String.fromCharCode(bytes[i])\<close>: the character with the code of the byte, and the
  character 0 for \<^verbatim>\<open>undefined\<close> past the end.
\<close>

definition fromCharCode :: "byte list \<Rightarrow> nat \<Rightarrow> char" where
  "fromCharCode bs i = (if i < length bs then char_of (unat (bs ! i)) else char_of (0 :: nat))"

text \<open>\<^verbatim>\<open>bytes.slice(a, b)\<close> for \<open>0 \<le> a \<le> b\<close>: the end is cut at the length of the array.\<close>

definition slice :: "byte list \<Rightarrow> nat \<Rightarrow> nat \<Rightarrow> byte list" where
  "slice bs a b = take (b - a) (drop a bs)"

definition supportedTags :: "string list" where
  "supportedTags = [''YM5!'', ''YM6!'', ''YM3!'']"

text \<open>\<^verbatim>\<open>String.fromCharCode(bytes[0], bytes[1], bytes[2], bytes[3])\<close>.\<close>

definition tagOf :: "byte list \<Rightarrow> string" where
  "tagOf bytes =
     [fromCharCode bytes 0, fromCharCode bytes 1, fromCharCode bytes 2, fromCharCode bytes 3]"

text \<open>
  \<^verbatim>\<open>(bytes[4] << 24) | (bytes[5] << 16) | (bytes[6] << 8) | (bytes[7])\<close>: a signed 32-bit
  integer, negative when bit 7 of byte 4 is set.
\<close>

definition frameCount :: "byte list \<Rightarrow> int" where
  "frameCount bytes =
     sint (((push_bit 24 (reg bytes 4) OR push_bit 16 (reg bytes 5))
             OR push_bit 8 (reg bytes 6)) OR reg bytes 7)"

definition regsPerFrame :: nat where
  "regsPerFrame = 16"

text \<open>The offset of the register data: 64, or 16 when the data does not reach that far.\<close>

definition dataOffset :: "byte list \<Rightarrow> nat" where
  "dataOffset bytes =
     (if int (length bytes) < 64 + frameCount bytes * int regsPerFrame then 16 else 64)"

definition parseYM :: "byte list \<Rightarrow> error + parsed" where
  "parseYM bytes =
     (let tag = tagOf bytes
      in if tag \<notin> set supportedTags then Inl (UnsupportedYM tag)
         else
           (let nframes = frameCount bytes;
                offset = dataOffset bytes;
                out = map (\<lambda>f. let start = offset + f * regsPerFrame
                                in slice bytes start (start + regsPerFrame))
                          [0 ..< nat nframes]
            in Inr \<lparr> meta = \<lparr> version = tag, mframes = nframes, mrate = 50 \<rparr>,
                     pframes = out \<rparr>))"

record ymfile =
  fname :: string
  fbytes :: "byte list"

text \<open>\<^verbatim>\<open>toLowerCase\<close> on the letters of ASCII.\<close>

definition lowerChar :: "char \<Rightarrow> char" where
  "lowerChar c =
     (let n = (of_char c :: nat) in if 65 \<le> n \<and> n \<le> 90 then char_of (n + 32) else c)"

definition bytesOf :: "string \<Rightarrow> byte list" where
  "bytesOf s = map (\<lambda>c. of_nat (of_char c)) s"

text \<open>
  \<^verbatim>\<open>loadAndParse\<close>. The archive library (\<^verbatim>\<open>LHA.read\<close>, \<^verbatim>\<open>LHA.unpack\<close>) is not part of the
  repository: \<open>unlha\<close> stands for reading the archive and unpacking its \<^verbatim>\<open>.ym\<close> entry,
  with an error when there is none.
\<close>

definition loadAndParse :: "(byte list \<Rightarrow> error + byte list) \<Rightarrow> ymfile \<Rightarrow> error + parsed" where
  "loadAndParse unlha f =
     (let bytes = fbytes f; name = map lowerChar (fname f)
      in if suffix ''.lzh'' name \<or> suffix ''.lha'' name then
           (case unlha bytes of Inl e \<Rightarrow> Inl e | Inr ymBytes \<Rightarrow> parseYM ymBytes)
         else if suffix ''.ym'' name then parseYM bytes
         else if suffix ''.ay'' name then
           (if slice bytes 0 8 = bytesOf ''ZXAYEMUL'' then Inl AYDetected
            else Inl AYUnrecognised)
         else Inl UnsupportedFormat)"

text \<open>
  The click handler of the load button: the replayer after the click and the error
  shown by \<^verbatim>\<open>alert\<close>, if any. \<^verbatim>\<open>replayer.load\<close> is reached only when \<^verbatim>\<open>loadAndParse\<close>
  has returned.
\<close>

definition loadClick ::
  "(byte list \<Rightarrow> error + byte list) \<Rightarrow> ymfile option \<Rightarrow> replayer \<Rightarrow> replayer \<times> error option" where
  "loadClick unlha fo r =
     (case fo of
        None \<Rightarrow> (r, Some NoFileChosen)
      | Some f \<Rightarrow>
          (case loadAndParse unlha f of
             Inl e \<Rightarrow> (r, Some e)
           | Inr p \<Rightarrow>
               (load (Some (pframes p))
                     (Some (if mrate (meta p) \<noteq> 0 then mrate (meta p) else 50)) r,
                None)))"

section \<open>Sample inputs\<close>

text \<open>Fourteen registers, all 0 but the volume of channel A, which is 15.\<close>

definition frameVolA15 :: regs where
  "frameVolA15 = [0, 0, 0, 0, 0, 0, 0, 0, 15, 0, 0, 0, 0, 0]"

text \<open>Fourteen registers, all 0.\<close>

definition frameZero :: regs where
  "frameZero = replicate 14 0"

text \<open>The controls with volume 2 for channel A and volume 3 for the noise path.\<close>

definition loudControls :: controls where
  "loudControls = \<lparr> muteA = False, muteB = False, muteC = False,
                     volA = Some 2, volB = None, volC = None, volN = Some 3 \<rparr>"

text \<open>The replayer after the constructor and \<^verbatim>\<open>setUserControls\<close> with these controls.\<close>

definition loudA :: replayer where
  "loudA = setUserControls loudControls newReplayer"

text \<open>
  As \<open>frameVolA15\<close> but with tone periods: 0x234 for channel A, 0 for channel B (the
  high nibble of register 3 is not read), 1 for channel C.
\<close>

definition frameTones :: regs where
  "frameTones = [0x34, 0x12, 0, 0xF0, 1, 0, 0, 0, 15, 0, 0, 0, 0, 0]"

text \<open>
  The replayer after \<^verbatim>\<open>applyRegs\<close> of the all-zero frame on a new replayer at clock
  time \<open>t\<close>: the period differs from the initial one, so the envelope is re-triggered.
\<close>

definition afterFirst :: "real \<Rightarrow> replayer" where
  "afterFirst t = applyRegs frameZero t newReplayer"

text \<open>A replayer with a track of one frame loaded, stopped, and the same while playing.\<close>

definition loaded :: replayer where
  "loaded = load (Some [frameVolA15]) (Some 50) newReplayer"

definition playing :: replayer where
  "playing = play loaded"

text \<open>
  A file with the tag \<open>YM5!\<close> whose header declares 2 frames and that ends after 28
  bytes, and a file of 8 bytes with the tag \<open>YM7!\<close>.
\<close>

definition truncatedYM :: "byte list" where
  "truncatedYM = [0x59, 0x4D, 0x35, 0x21, 0, 0, 0, 2] @ replicate 20 7"

definition badTagYM :: "byte list" where
  "badTagYM = [0x59, 0x4D, 0x37, 0x21, 0, 0, 0, 1]"

text \<open>An archive library that finds no \<^verbatim>\<open>.ym\<close> entry.\<close>

definition noArchive :: "byte list \<Rightarrow> error + byte list" where
  "noArchive bytes = Inl NoYMInArchive"

text \<open>The scheduler state of a page that has not started a playback.\<close>

definition idlePlayer :: player where
  "idlePlayer = \<lparr> rep = newReplayer, lookaheadId = False, frameIdx = 0, frameRate = 50,
                   trackFrames = [], spf = 0, nextTime = 0, applied = [], stops = 0 \<rparr>"

text \<open>A track of five frames.\<close>

definition fiveFrames :: "regs list" where
  "fiveFrames = [frameVolA15, frameZero, frameTones, frameZero, frameVolA15]"

section \<open>The invariant of the lookahead scheduler\<close>

text \<open>
  What holds of the scheduler state from \<^verbatim>\<open>startFrames\<close> at clock time \<open>ct0\<close> on, after
  any number of wake-ups.
\<close>

definition schedInv :: "real \<Rightarrow> player \<Rightarrow> bool" where
  "schedInv ct0 s =
     (applied s = [0 ..< frameIdx s] \<and> frameIdx s \<le> length (trackFrames s) \<and>
      nextTime s = ct0 + real (frameIdx s) * spf s \<and>
      (if lookaheadId s then stops s = 0
       else stops s = 1 \<and> frameIdx s = length (trackFrames s)))"

section \<open>Register arithmetic\<close>

lemma uint_byte_less: "uint (b :: byte) < 256"
  using unsigned_less [of b, where ?'a = int] by simp

lemma uint_ucast_byte: "uint (ucast (b :: byte) :: int32) = uint b"
proof -
  have "uint b < 2 ^ 32" using uint_byte_less [of b] by simp
  then have "take_bit 32 (uint b) = uint b" by (simp add: take_bit_int_eq_self)
  then show ?thesis by (simp add: unsigned_ucast_eq)
qed

lemma uint_reg: "0 \<le> uint (reg rs i) \<and> uint (reg rs i) < 256"
  using uint_byte_less by (simp add: reg_def uint_ucast_byte)

lemma sint_uint_small: "uint (w :: int32) < 2 ^ 31 \<Longrightarrow> sint w = uint w"
proof -
  assume "uint w < 2 ^ 31"
  moreover have "- (2 ^ 31) \<le> (0 :: int)" by simp
  then have "- (2 ^ 31) \<le> uint w"
    by (rule order_trans) simp
  ultimately have "signed_take_bit 31 (uint w) = uint w"
    by (intro signed_take_bit_int_eq_self)
  then show ?thesis by (simp add: sint_uint)
qed

lemma or_shifted_int:
  fixes h l :: int
  assumes "0 \<le> l" "l < 256"
  shows "push_bit 8 h OR l = 256 * h + l"
proof -
  have l: "take_bit 8 l = l" using assms by (simp add: take_bit_int_eq_self)
  have "push_bit 8 h AND take_bit 8 l = 0"
    by (auto simp: bit_eq_iff bit_simps)
  then have "push_bit 8 h + l = push_bit 8 h OR l"
    using disjunctive_add_eq_or [of "push_bit 8 h" l] by (simp add: l)
  then show ?thesis by (simp add: push_bit_eq_mult)
qed

lemma and_mask_int: "(k::int) AND 15 = k mod 16" "(k::int) AND 31 = k mod 32"
proof -
  have "k AND mask 4 = take_bit 4 k" "k AND mask 5 = take_bit 5 k"
    by (simp_all add: take_bit_eq_mask)
  then show "k AND 15 = k mod 16" "k AND 31 = k mod 32"
    by (simp_all add: take_bit_eq_mod mask_eq_exp_minus_1)
qed

lemma uint_tonePer:
  "uint (tonePer rs lo) = 256 * (uint (reg rs (lo + 1)) mod 16) + uint (reg rs lo)"
proof -
  let ?h = "uint (reg rs (lo + 1)) mod 16"
  have h: "0 \<le> ?h" "?h < 16" by simp_all
  have "push_bit 8 ?h < 2 ^ 32" "0 \<le> push_bit 8 ?h"
    using h by (simp_all add: push_bit_eq_mult)
  then have "take_bit 32 (push_bit 8 ?h) = push_bit 8 ?h"
    by (simp add: take_bit_int_eq_self)
  moreover have "uint (reg rs (lo + 1) AND 0x0F) = ?h"
    by (simp only: unsigned_and_eq) (simp add: and_mask_int)
  ultimately have "uint (push_bit 8 (reg rs (lo + 1) AND 0x0F)) = push_bit 8 ?h"
    by (simp only: unsigned_push_bit_eq) simp
  then have "uint (tonePer rs lo) = push_bit 8 ?h OR uint (reg rs lo)"
    by (simp only: tonePer_def unsigned_or_eq)
  then show ?thesis using uint_reg [of rs lo] by (simp add: or_shifted_int)
qed

lemma uint_envPeriodRaw:
  "uint (envPeriodRaw rs) = 256 * uint (reg rs 12) + uint (reg rs 11)"
proof -
  let ?h = "uint (reg rs 12)"
  have "push_bit 8 ?h < 2 ^ 32" "0 \<le> push_bit 8 ?h"
    using uint_reg [of rs 12] by (simp_all add: push_bit_eq_mult)
  then have "take_bit 32 (push_bit 8 ?h) = push_bit 8 ?h"
    by (simp add: take_bit_int_eq_self)
  then have "uint (envPeriodRaw rs) = push_bit 8 ?h OR uint (reg rs 11)"
    by (simp add: envPeriodRaw_def unsigned_or_eq unsigned_push_bit_eq)
  then show ?thesis using uint_reg [of rs 11] by (simp add: or_shifted_int)
qed

section \<open>Properties of the envelope level\<close>

lemma jsMod1_bounds: "- 1 < jsMod1 x \<and> jsMod1 x < 1"
  unfolding jsMod1_def by (simp; linarith)

lemma jsMod1_idem: "jsMod1 (jsMod1 x) = jsMod1 x"
proof (cases "0 \<le> x")
  case True
  then have "jsMod1 x = frac x" by (simp add: jsMod1_def frac_def)
  moreover have "0 \<le> frac x" "frac x < 1" by (simp_all add: frac_lt_1)
  ultimately show ?thesis by (simp add: jsMod1_def)
next
  case False
  define y where "y = x - of_int \<lceil>x\<rceil>"
  have y: "jsMod1 x = y" using False by (simp add: jsMod1_def y_def)
  have b: "- 1 < y" "y \<le> 0" unfolding y_def by linarith+
  have "jsMod1 y = y"
  proof (cases "y = 0")
    case True
    then show ?thesis by (simp add: jsMod1_def)
  next
    case False
    with b have "\<lceil>y\<rceil> = 0" by (simp add: ceiling_eq_iff)
    with False b show ?thesis by (simp add: jsMod1_def)
  qed
  then show ?thesis by (simp add: y)
qed

lemma envelopeLevel_range: "0 \<le> envelopeLevel ph sh \<and> envelopeLevel ph sh \<le> 1"
  by (simp add: envelopeLevel_def Let_def)

section \<open>Ranges of the decoded values\<close>

lemma num_bounds:
  assumes "a \<le> uint w" "uint w \<le> b" "b < 2 ^ 31"
  shows "real_of_int a \<le> num w \<and> num w \<le> real_of_int b"
proof -
  have "uint w < 2 ^ 31" using assms(2,3) by linarith
  then have "num w = real_of_int (uint w)"
    by (simp only: num_def sint_uint_small)
  then show ?thesis using assms(1,2) by (simp only: of_int_le_iff simp_thms)
qed

lemma tonePer_range: "0 \<le> uint (tonePer rs lo) \<and> uint (tonePer rs lo) < 4096"
proof -
  have "uint (reg rs (lo + 1)) mod 16 < 16" by simp
  then show ?thesis using uint_reg [of rs lo] by (simp add: uint_tonePer)
qed

lemma num_tonePer: "num (tonePer rs lo) = real_of_int (uint (tonePer rs lo))"
proof -
  have "uint (tonePer rs lo) < 2 ^ 31" using tonePer_range [of rs lo] by simp
  then show ?thesis by (simp only: num_def sint_uint_small)
qed

lemma toneFreq_pos: "0 < toneFreq (tonePer rs lo)"
proof (cases "tonePer rs lo = 0")
  case True
  then show ?thesis by (simp add: toneFreq_def)
next
  case False
  then have "uint (tonePer rs lo) \<noteq> 0" by (simp add: unsigned_eq_0_iff)
  then have "1 \<le> uint (tonePer rs lo)" "uint (tonePer rs lo) \<le> 4095"
    using tonePer_range [of rs lo] by linarith+
  then have "real_of_int 1 \<le> num (tonePer rs lo)"
    using num_bounds [of 1 "tonePer rs lo" 4095] by simp
  then have "0 < num (tonePer rs lo)" by simp
  then show ?thesis using False by (simp add: toneFreq_def clock_def)
qed

lemma uint_envPeriod: "1 \<le> uint (envPeriod rs) \<and> uint (envPeriod rs) \<le> 65535"
proof (cases "envPeriodRaw rs = 0")
  case True
  then show ?thesis by (simp add: envPeriod_def)
next
  case False
  then have "uint (envPeriodRaw rs) \<noteq> 0" by (simp add: unsigned_eq_0_iff)
  moreover have "0 \<le> uint (envPeriodRaw rs)" by simp
  moreover have "uint (envPeriodRaw rs) \<le> 65535"
    using uint_reg [of rs 12] uint_reg [of rs 11] by (simp add: uint_envPeriodRaw)
  ultimately have "1 \<le> uint (envPeriodRaw rs) \<and> uint (envPeriodRaw rs) \<le> 65535"
    by linarith
  then show ?thesis using False by (simp add: envPeriod_def)
qed

lemma num_envPeriod: "1 \<le> num (envPeriod rs) \<and> num (envPeriod rs) \<le> 65535"
  using uint_envPeriod [of rs] num_bounds [of 1 "envPeriod rs" 65535] by simp

lemma periodSecOf_lower: "32 / 1000000 \<le> periodSecOf rs"
  using num_envPeriod [of rs] by (simp add: periodSecOf_def clock_def)

lemma uint_vol: "0 \<le> uint (vol rs v) \<and> uint (vol rs v) \<le> 15"
proof -
  have "uint (vol rs v) = uint (reg rs v) mod 16"
    by (simp add: vol_def unsigned_and_eq and_mask_int)
  moreover have "uint (reg rs v) mod 16 < 16" by simp
  ultimately show ?thesis by simp
qed

lemma num_vol: "0 \<le> num (vol rs v) \<and> num (vol rs v) \<le> 15"
  using uint_vol [of rs v] num_bounds [of 0 "vol rs v" 15] by simp

lemma num_noiseFreq: "0 \<le> num (reg rs 6 AND 0x1F) \<and> num (reg rs 6 AND 0x1F) \<le> 31"
proof -
  have u: "uint (reg rs 6 AND 0x1F) = uint (reg rs 6) mod 32"
    by (simp add: unsigned_and_eq and_mask_int)
  have "uint (reg rs 6) mod 32 < 32" by simp
  then have "0 \<le> uint (reg rs 6 AND 0x1F)" "uint (reg rs 6 AND 0x1F) \<le> 31" using u by simp_all
  then show ?thesis using num_bounds [of 0 "reg rs 6 AND 0x1F" 31] by simp
qed

lemma updateEnv_level: "0 \<le> level (updateEnv rs now e) \<and> level (updateEnv rs now e) \<le> 1"
  using envelopeLevel_range by (simp add: updateEnv_def Let_def)

lemma envGain_range:
  "0 \<le> level e \<Longrightarrow> level e \<le> 1 \<Longrightarrow> 0 \<le> envGain rs v e \<and> envGain rs v e \<le> 1"
  using num_vol [of rs v] by (simp add: envGain_def)

lemma setVoice_gain_range:
  assumes "0 \<le> level e" "level e \<le> 1" "0 \<le> volUser x" "volUser x \<le> 1"
  shows "0 \<le> gain (setVoice rs lo mbit v e x) \<and> gain (setVoice rs lo mbit v e x) \<le> 1"
proof -
  have g: "0 \<le> envGain rs v e" "envGain rs v e \<le> 1"
    using envGain_range [OF assms(1,2), of rs v] by simp_all
  have "envGain rs v e * volUser x \<le> 1 * 1"
    using g assms(3,4) by (intro mult_mono) simp_all
  then show ?thesis using g assms(3) by (simp add: setVoice_def)
qed

section \<open>The fields set by \<^verbatim>\<open>applyRegs\<close>\<close>

lemma applyRegs_chA: "chA (applyRegs rs now r) = setVoice rs 0 0x01 8 (updateEnv rs now (env r)) (chA r)"
  by (simp add: applyRegs_def Let_def)
lemma applyRegs_chB: "chB (applyRegs rs now r) = setVoice rs 2 0x02 9 (updateEnv rs now (env r)) (chB r)"
  by (simp add: applyRegs_def Let_def)
lemma applyRegs_chC: "chC (applyRegs rs now r) = setVoice rs 4 0x04 10 (updateEnv rs now (env r)) (chC r)"
  by (simp add: applyRegs_def Let_def)
lemma applyRegs_env: "env (applyRegs rs now r) = updateEnv rs now (env r)"
  by (simp add: applyRegs_def Let_def)
lemma applyRegs_Noise:
  "Noise (applyRegs rs now r) =
     (Noise r)\<lparr> bpFreq := num (reg rs 6 AND 0x1F) * 200 + 1000,
                ngain := (if noiseOn rs r then nvolUser (Noise r) else 0) \<rparr>"
  by (simp add: applyRegs_def Let_def)
lemma applyRegs_other:
  "frames (applyRegs rs now r) = frames r \<and> rate (applyRegs rs now r) = rate r \<and>
   timer (applyRegs rs now r) = timer r"
  by (simp add: applyRegs_def Let_def)

lemma setVoice_freq_pos: "0 < freq (setVoice rs lo mbit v e x)"
  using toneFreq_pos [of rs lo] by (simp add: setVoice_def)

lemma frameVolA15_path: "pathOn frameVolA15 0x01 8 x = (\<not> mute x)"
  by (simp add: pathOn_def envFlag_def vol_def reg_def num_def frameVolA15_def)

lemma frameVolA15_envGain: "envGain frameVolA15 8 e = 1"
  by (simp add: envGain_def envFlag_def vol_def reg_def num_def frameVolA15_def)

lemma setVoice_gain_abs: 
  assumes "0 \<le> level e" "level e \<le> 1"
  shows "\<bar>gain (setVoice rs lo mbit v e x)\<bar> \<le> \<bar>volUser x\<bar>"
proof -
  have g: "0 \<le> envGain rs v e" "envGain rs v e \<le> 1"
    using envGain_range [OF assms, of rs v] by simp_all
  have "\<bar>envGain rs v e * volUser x\<bar> = envGain rs v e * \<bar>volUser x\<bar>"
    using g(1) by (simp add: abs_mult)
  also have "\<dots> \<le> 1 * \<bar>volUser x\<bar>"
    using g(2) by (intro mult_right_mono) simp_all
  finally show ?thesis by (simp add: setVoice_def)
qed

lemma frameVolA15_noiseOn: "noiseOn frameVolA15 r = (\<not> mute (chA r))"
  by (simp add: noiseOn_def pathOn_def envFlag_def vol_def reg_def num_def frameVolA15_def)

section \<open>Frames that differ in the tone-period bytes only\<close>

lemma reg_nth: "i < length rs \<Longrightarrow> uint (reg rs i) = uint (rs ! i)"
  by (simp add: reg_def uint_ucast_byte)

lemma reg_drop: "6 \<le> i \<Longrightarrow> reg rs i = reg (drop 6 rs) (i - 6)"
  by (auto simp: reg_def)

lemma updateEnv_drop:
  assumes "drop 6 rs' = drop 6 rs"
  shows "updateEnv rs' now e = updateEnv rs now e"
proof -
  have r: "reg rs' 11 = reg rs 11" "reg rs' 12 = reg rs 12" "reg rs' 13 = reg rs 13"
    using assms by (simp_all add: reg_drop)
  then have "periodSecOf rs' = periodSecOf rs"
    by (simp add: periodSecOf_def envPeriod_def envPeriodRaw_def)
  then show ?thesis using r by (simp add: updateEnv_def)
qed

lemma pathOn_drop:
  assumes "drop 6 rs' = drop 6 rs" "6 \<le> v"
  shows "pathOn rs' mbit v x = pathOn rs mbit v x"
proof -
  have "reg rs' 7 = reg rs 7" "reg rs' v = reg rs v"
    using assms by (simp_all add: reg_drop)
  then show ?thesis by (simp add: pathOn_def envFlag_def vol_def)
qed

lemma envGain_drop:
  assumes "drop 6 rs' = drop 6 rs" "6 \<le> v"
  shows "envGain rs' v e = envGain rs v e"
proof -
  have "reg rs' v = reg rs v"
    using assms by (simp add: reg_drop)
  then show ?thesis by (simp add: envGain_def envFlag_def vol_def)
qed

lemma setVoice_gain_drop:
  assumes "drop 6 rs' = drop 6 rs" "6 \<le> v"
  shows "gain (setVoice rs' lo' mbit v (updateEnv rs' now e) x) =
         gain (setVoice rs lo mbit v (updateEnv rs now e) x)"
  by (simp add: setVoice_def pathOn_drop [OF assms] envGain_drop [OF assms]
        updateEnv_drop [OF assms(1)])

lemma noiseOn_drop:
  assumes "drop 6 rs' = drop 6 rs"
  shows "noiseOn rs' r = noiseOn rs r"
  by (simp add: noiseOn_def pathOn_drop [OF assms])

lemma frameTones_per:
  "tonePer frameTones 0 = 564" "tonePer frameTones 2 = 0" "tonePer frameTones 4 = 1"
  by (simp_all add: tonePer_def reg_def frameTones_def)

section \<open>Continuity of the envelope level\<close>

lemma jsMod1_pos: "0 \<le> y \<Longrightarrow> jsMod1 y = frac y"
  by (simp add: jsMod1_def frac_def)

lemma jsMod1_neg: "y < 0 \<Longrightarrow> jsMod1 y = - frac (- y)"
  by (simp add: jsMod1_def frac_def ceiling_def)

lemma jsMod1_isCont:
  assumes "x \<notin> \<int>"
  shows "isCont jsMod1 x"
proof (cases "0 < x")
  case True
  have "eventually (\<lambda>y. jsMod1 y = frac y) (nhds x)"
    unfolding eventually_nhds
    by (rule exI [of _ "{0<..}"]) (use True in \<open>auto simp: jsMod1_pos\<close>)
  moreover have "isCont frac x" using assms by (rule continuous_frac)
  ultimately show ?thesis by (simp add: isCont_cong)
next
  case False
  have "x \<noteq> 0" using assms by auto
  with False have neg: "x < 0" by simp
  have "eventually (\<lambda>y. jsMod1 y = - frac (- y)) (nhds x)"
    unfolding eventually_nhds
    by (rule exI [of _ "{..<0}"]) (use neg in \<open>auto simp: jsMod1_neg\<close>)
  moreover have "isCont (\<lambda>y. - frac (- y)) x"
  proof -
    have "- x \<notin> \<int>" using assms by (metis Ints_minus add.inverse_inverse)
    then have "isCont frac (- x)" by (rule continuous_frac)
    then have "isCont (\<lambda>y. frac (- y)) x"
      by (intro isCont_o2 [where f = uminus and g = frac]) (simp_all add: continuous_intros)
    then show ?thesis by (intro continuous_intros)
  qed
  ultimately show ?thesis by (simp add: isCont_cong)
qed

lemma triangle_min: "(if p < 0.5 then p * 2 else 1 - (p - 0.5) * 2) = min (p * 2) (2 - p * (2::real))"
  by (simp add: min_def algebra_simps)

lemma envelopeLevel_isCont:
  assumes "x \<notin> \<int>"
  shows "isCont (\<lambda>ph. envelopeLevel ph sh) x"
proof -
  note j = jsMod1_isCont [OF assms]
  show ?thesis
    unfolding envelopeLevel_def Let_def triangle_min
    by (cases "sh AND 4 \<noteq> 0"; cases "sh AND 2 \<noteq> 0"; cases "sh AND 1 \<noteq> 0")
       (simp_all only: if_True if_False simp_thms, (intro continuous_intros j)+)
qed

section \<open>The envelope update\<close>

lemma and_bit_flags:
  "(sh AND 4 \<noteq> 0) = bit (sh :: int32) 2" "(sh AND 2 \<noteq> 0) = bit sh 1" "(sh AND 1 \<noteq> 0) = bit sh 0"
proof -
  have "(sh AND 2 ^ 2 = 0) = (\<not> bit sh 2)" "(sh AND 2 ^ 1 = 0) = (\<not> bit sh 1)"
    "(sh AND 2 ^ 0 = 0) = (\<not> bit sh 0)"
    by (rule and_exp_eq_0_iff_not_bit)+
  then show "(sh AND 4 \<noteq> 0) = bit sh 2" "(sh AND 2 \<noteq> 0) = bit sh 1" "(sh AND 1 \<noteq> 0) = bit sh 0"
    by simp_all
qed


lemma frameZero_regs: "reg frameZero 13 AND 0x0F = 0" "periodSecOf frameZero = 32 / 1000000"
  by (simp_all add: periodSecOf_def envPeriod_def envPeriodRaw_def reg_def frameZero_def
        num_def clock_def)

lemma env_afterFirst:
  "env (afterFirst t) =
     \<lparr> periodSec = 32 / 1000000, shape = 0, phase = 0, level = 1, lastUpdate = t \<rparr>"
  by (simp add: afterFirst_def applyRegs_env updateEnv_def frameZero_regs newReplayer_def)

lemma updateEnv_advance:
  assumes "reg rs 13 AND 0x0F = shape e" "\<bar>periodSec e - periodSecOf rs\<bar> \<le> 1 / 1000000"
  shows "updateEnv rs now e =
           e\<lparr> lastUpdate := now,
              phase := phase e + (if lastUpdate e = 0 then 0 else now - lastUpdate e) / periodSec e,
              level := envelopeLevel
                (phase e + (if lastUpdate e = 0 then 0 else now - lastUpdate e) / periodSec e)
                (shape e) \<rparr>"
    and "0 < periodSec e"
proof -
  have "32 / 1000000 \<le> periodSecOf rs" by (rule periodSecOf_lower)
  with assms(2) show p: "0 < periodSec e" by linarith
  then have d: "phaseDivisor e = periodSec e" by (simp add: phaseDivisor_def)
  have n: "\<not> (reg rs 13 AND 0x0F \<noteq> shape e \<or> \<bar>periodSec e - periodSecOf rs\<bar> > 1 / 1000000)"
    using assms by simp
  show "updateEnv rs now e =
           e\<lparr> lastUpdate := now,
              phase := phase e + (if lastUpdate e = 0 then 0 else now - lastUpdate e) / periodSec e,
              level := envelopeLevel
                (phase e + (if lastUpdate e = 0 then 0 else now - lastUpdate e) / periodSec e)
                (shape e) \<rparr>"
    unfolding updateEnv_def Let_def d if_not_P [OF n]
    by (cases "lastUpdate e = 0") simp_all
qed

lemma updateEnv_retrigger:
  assumes "reg rs 13 AND 0x0F \<noteq> shape e \<or> \<bar>periodSec e - periodSecOf rs\<bar> > 1 / 1000000"
  shows "updateEnv rs now e =
           e\<lparr> shape := reg rs 13 AND 0x0F, periodSec := periodSecOf rs, phase := 0, level := 1,
              lastUpdate := now \<rparr>"
  unfolding updateEnv_def Let_def if_P [OF assms] by (rule refl)

lemma envelopeLevel_families:
  "bit sh 2 \<and> \<not> bit sh 1 \<and> \<not> bit sh 0 \<Longrightarrow> envelopeLevel ph sh = max 0 (min 1 (jsMod1 ph))"
  "bit sh 2 \<and> \<not> bit sh 1 \<and> bit sh 0 \<Longrightarrow>
     envelopeLevel ph sh = max 0 (min 1 (min 1 (jsMod1 ph * 2)))"
  "bit sh 1 \<and> \<not> bit sh 0 \<Longrightarrow>
     envelopeLevel ph sh =
       max 0 (min 1 (if jsMod1 ph < 1 / 2 then jsMod1 ph * 2 else 2 - jsMod1 ph * 2))"
  "(\<not> bit sh 2 \<and> \<not> bit sh 1) \<or> (bit sh 1 \<and> bit sh 0) \<Longrightarrow>
     envelopeLevel ph sh = max 0 (min 1 (1 - jsMod1 ph))"
  by (auto simp: envelopeLevel_def Let_def and_bit_flags)

lemma half_not_int: "(1 / 2 :: real) \<notin> \<int>"
proof
  assume "(1 / 2 :: real) \<in> \<int>"
  then have "frac (1 / 2 :: real) = 0" by (simp only: frac_eq_0_iff)
  then show False by (simp add: frac_def)
qed

lemma updateEnv_periodSec_pos: "0 < periodSec (updateEnv rs now e)"
proof -
  have p: "32 / 1000000 \<le> periodSecOf rs" by (rule periodSecOf_lower)
  show ?thesis
  proof (cases "reg rs 13 AND 0x0F \<noteq> shape e \<or> \<bar>periodSec e - periodSecOf rs\<bar> > 1 / 1000000")
    case True
    then have "periodSec (updateEnv rs now e) = periodSecOf rs"
      by (simp add: updateEnv_def Let_def)
    then show ?thesis using p by simp
  next
    case False
    then have "periodSec (updateEnv rs now e) = periodSec e"
      by (simp add: updateEnv_def Let_def)
    moreover have "\<bar>periodSec e - periodSecOf rs\<bar> \<le> 1 / 1000000"
      using False by simp
    ultimately show ?thesis using p by linarith
  qed
qed

section \<open>Transport and parser\<close>

lemma loaded_fields: "timer loaded = None" "frames loaded = [frameVolA15]" "rate loaded = 50"
  by (simp_all add: loaded_def load_def newReplayer_def)

lemma playing_fields: "timer playing = Some 0" "frames playing = [frameVolA15]"
  by (simp_all add: playing_def play_def loaded_fields)

lemma parseYM_bad_tag:
  "tagOf bytes \<notin> set supportedTags \<Longrightarrow> parseYM bytes = Inl (UnsupportedYM (tagOf bytes))"
  by (simp add: parseYM_def)

lemma parseYM_good_tag:
  assumes "tagOf bytes \<in> set supportedTags"
  shows "parseYM bytes =
           Inr \<lparr> meta = \<lparr> version = tagOf bytes, mframes = frameCount bytes, mrate = 50 \<rparr>,
                 pframes = map (\<lambda>f. slice bytes (dataOffset bytes + f * regsPerFrame)
                                       (dataOffset bytes + f * regsPerFrame + regsPerFrame))
                               [0 ..< nat (frameCount bytes)] \<rparr>"
  using assms by (simp add: parseYM_def Let_def)

lemma loadClick_error:
  "loadAndParse unlha f = Inl e \<Longrightarrow> loadClick unlha (Some f) r = (r, Some e)"
  by (simp add: loadClick_def)

lemma loadAndParse_ym:
  assumes "\<not> suffix ''.lzh'' (map lowerChar (fname f))" "\<not> suffix ''.lha'' (map lowerChar (fname f))"
    "suffix ''.ym'' (map lowerChar (fname f))"
  shows "loadAndParse unlha f = parseYM (fbytes f)"
  using assms by (simp add: loadAndParse_def Let_def)

lemma slice_length: "length (slice bs a (a + n)) = min n (length bs - a)"
  by (simp add: slice_def)

section \<open>The scheduler keeps its invariant and stops\<close>

lemma lookahead_fixed:
  "trackFrames (lookahead ct s) = trackFrames s \<and> spf (lookahead ct s) = spf s \<and>
   frameRate (lookahead ct s) = frameRate s"
proof (induction ct s rule: lookahead.induct)
  case (1 ct s)
  show ?case
  proof (cases "nextTime s < ct + ahead \<and> \<not> frameIdx s \<ge> length (trackFrames s)")
    case True
    then show ?thesis using 1 by (subst (1 2 3) lookahead.simps) simp
  next
    case False
    then show ?thesis by (subst (1 2 3) lookahead.simps) (auto simp: stopFrames_def)
  qed
qed

lemma lookahead_inv:
  "schedInv ct0 s \<Longrightarrow> lookaheadId s \<Longrightarrow> schedInv ct0 (lookahead ct s)"
proof (induction ct s rule: lookahead.induct)
  case (1 ct s)
  show ?case
  proof (cases "nextTime s < ct + ahead")
    case False
    then show ?thesis using 1(2) by (subst lookahead.simps) simp
  next
    case t: True
    show ?thesis
    proof (cases "frameIdx s \<ge> length (trackFrames s)")
      case True
      then show ?thesis using t 1(2,3)
        by (subst lookahead.simps) (simp add: schedInv_def stopFrames_def)
    next
      case False
      let ?s' = "s\<lparr> rep := applyRegs (trackFrames s ! frameIdx s) ct (rep s),
                    applied := applied s @ [frameIdx s],
                    frameIdx := frameIdx s + 1,
                    nextTime := nextTime s + spf s \<rparr>"
      have "schedInv ct0 ?s'" using 1(2,3) False
        by (simp add: schedInv_def algebra_simps)
      moreover have "lookaheadId ?s'" using 1(3) by simp
      ultimately have "schedInv ct0 (lookahead ct ?s')"
        using 1(1) t False by simp
      then show ?thesis using t False by (subst lookahead.simps) simp
    qed
  qed
qed

lemma lookahead_completes:
  "schedInv ct0 s \<Longrightarrow> lookaheadId s \<Longrightarrow> 0 \<le> spf s \<Longrightarrow>
   ct0 + real (length (trackFrames s)) * spf s < ct + ahead \<Longrightarrow>
   \<not> lookaheadId (lookahead ct s)"
proof (induction ct s rule: lookahead.induct)
  case (1 ct s)
  have "real (frameIdx s) * spf s \<le> real (length (trackFrames s)) * spf s"
    using 1(2,4) by (intro mult_right_mono) (simp_all add: schedInv_def)
  then have t: "nextTime s < ct + ahead"
    using 1(2,5) by (simp add: schedInv_def)
  show ?case
  proof (cases "frameIdx s \<ge> length (trackFrames s)")
    case True
    then show ?thesis using t 1(3)
      by (subst lookahead.simps) (simp add: stopFrames_def)
  next
    case False
    let ?s' = "s\<lparr> rep := applyRegs (trackFrames s ! frameIdx s) ct (rep s),
                  applied := applied s @ [frameIdx s],
                  frameIdx := frameIdx s + 1,
                  nextTime := nextTime s + spf s \<rparr>"
    have "schedInv ct0 ?s'" using 1(2,3) False
      by (simp add: schedInv_def algebra_simps)
    then have "\<not> lookaheadId (lookahead ct ?s')"
      using 1(1) [OF t False] 1(3,4,5) by simp
    then show ?thesis using t False by (subst lookahead.simps) simp
  qed
qed

lemma lookahead_filled:
  "lookaheadId s \<Longrightarrow> lookaheadId (lookahead ct s) \<Longrightarrow> \<not> nextTime (lookahead ct s) < ct + ahead"
proof (induction ct s rule: lookahead.induct)
  case (1 ct s)
  show ?case
  proof (cases "nextTime s < ct + ahead")
    case False
    then show ?thesis by (subst lookahead.simps) simp
  next
    case t: True
    show ?thesis
    proof (cases "frameIdx s \<ge> length (trackFrames s)")
      case True
      then have "lookahead ct s = stopFrames s" using t by (subst lookahead.simps) simp
      then show ?thesis using 1(2,3) by (simp add: stopFrames_def)
    next
      case False
      let ?s' = "s\<lparr> rep := applyRegs (trackFrames s ! frameIdx s) ct (rep s),
                    applied := applied s @ [frameIdx s],
                    frameIdx := frameIdx s + 1,
                    nextTime := nextTime s + spf s \<rparr>"
      have e: "lookahead ct s = lookahead ct ?s'" using t False by (subst lookahead.simps) simp
      show ?thesis using 1(1) [OF t False] 1(2,3) unfolding e by simp
    qed
  qed
qed

lemma wakeUp_inv: "schedInv ct0 s \<Longrightarrow> schedInv ct0 (wakeUp ct s)"
  by (simp add: wakeUp_def lookahead_inv)

lemma wakeUp_fixed:
  "trackFrames (wakeUp ct s) = trackFrames s \<and> spf (wakeUp ct s) = spf s"
  by (simp add: wakeUp_def lookahead_fixed)

lemma wakeUps_inv: "schedInv ct0 s \<Longrightarrow> schedInv ct0 (wakeUps cts s)"
  by (induction cts arbitrary: s) (simp_all add: wakeUp_inv)

lemma wakeUps_fixed:
  "trackFrames (wakeUps cts s) = trackFrames s \<and> spf (wakeUps cts s) = spf s"
  by (induction cts arbitrary: s) (simp_all add: wakeUp_fixed)

lemma wakeUps_stopped: "\<not> lookaheadId s \<Longrightarrow> wakeUps cts s = s"
  by (induction cts) (simp_all add: wakeUp_def)

lemma wakeUp_completes:
  "schedInv ct0 s \<Longrightarrow> 0 \<le> spf s \<Longrightarrow>
   ct0 + real (length (trackFrames s)) * spf s < ct + ahead \<Longrightarrow>
   \<not> lookaheadId (wakeUp ct s)"
  by (cases "lookaheadId s") (simp_all add: wakeUp_def lookahead_completes)

lemma wakeUps_completes:
  "schedInv ct0 s \<Longrightarrow> 0 \<le> spf s \<Longrightarrow>
   \<exists>t \<in> set cts. ct0 + real (length (trackFrames s)) * spf s < t + ahead \<Longrightarrow>
   \<not> lookaheadId (wakeUps cts s)"
proof (induction cts arbitrary: s)
  case Nil
  then show ?case by simp
next
  case (Cons ct cts)
  have i: "schedInv ct0 (wakeUp ct s)" using Cons(2) by (rule wakeUp_inv)
  have f: "trackFrames (wakeUp ct s) = trackFrames s" "spf (wakeUp ct s) = spf s"
    by (simp_all add: wakeUp_fixed)
  show ?case
  proof (cases "ct0 + real (length (trackFrames s)) * spf s < ct + ahead")
    case True
    then have "\<not> lookaheadId (wakeUp ct s)" using Cons(2,3) by (intro wakeUp_completes)
    then show ?thesis by (simp add: wakeUps_stopped)
  next
    case False
    then have "\<exists>t \<in> set cts. ct0 + real (length (trackFrames (wakeUp ct s))) * spf (wakeUp ct s) < t + ahead"
      using Cons(4) by (auto simp: f)
    then show ?thesis using Cons(1) [OF i] Cons(3) by (simp add: f)
  qed
qed

lemma startFrames_inv: "schedInv ct (startFrames fs rt ct s)"
  by (simp add: schedInv_def startFrames_def)

lemma startFrames_fields:
  "trackFrames (startFrames fs rt ct s) = fs" "spf (startFrames fs rt ct s) = 1 / rt"
  "lookaheadId (startFrames fs rt ct s)" "frameIdx (startFrames fs rt ct s) = 0"
  "nextTime (startFrames fs rt ct s) = ct"
  by (simp_all add: startFrames_def)


lemma wakeUp_steps:
  "lookaheadId u \<and> nextTime u < ct + ahead \<and> frameIdx u < length (trackFrames u) \<longrightarrow>
     wakeUp ct u =
       wakeUp ct (u\<lparr> rep := applyRegs (trackFrames u ! frameIdx u) ct (rep u),
                     applied := applied u @ [frameIdx u],
                     frameIdx := frameIdx u + 1,
                     nextTime := nextTime u + spf u \<rparr>)"
  "lookaheadId u \<and> nextTime u < ct + ahead \<and> length (trackFrames u) \<le> frameIdx u \<longrightarrow>
     wakeUp ct u = stopFrames u"
  "\<not> nextTime u < ct + ahead \<longrightarrow> wakeUp ct u = u"
  "lookaheadId u \<and> lookaheadId (wakeUp ct u) \<longrightarrow> \<not> nextTime (wakeUp ct u) < ct + ahead"
proof -
  show "lookaheadId u \<and> nextTime u < ct + ahead \<and> frameIdx u < length (trackFrames u) \<longrightarrow>
     wakeUp ct u =
       wakeUp ct (u\<lparr> rep := applyRegs (trackFrames u ! frameIdx u) ct (rep u),
                     applied := applied u @ [frameIdx u],
                     frameIdx := frameIdx u + 1,
                     nextTime := nextTime u + spf u \<rparr>)"
    by (simp add: wakeUp_def) (subst lookahead.simps, simp)
  show "lookaheadId u \<and> nextTime u < ct + ahead \<and> length (trackFrames u) \<le> frameIdx u \<longrightarrow>
     wakeUp ct u = stopFrames u"
    by (simp add: wakeUp_def) (subst lookahead.simps, simp)
  show "\<not> nextTime u < ct + ahead \<longrightarrow> wakeUp ct u = u"
    by (simp add: wakeUp_def) (subst lookahead.simps, simp)
  show "lookaheadId u \<and> lookaheadId (wakeUp ct u) \<longrightarrow> \<not> nextTime (wakeUp ct u) < ct + ahead"
    using lookahead_filled [of u ct] by (simp add: wakeUp_def)
qed

section \<open>The claims\<close>

subsection \<open>C1\<close>

text \<open>
  Claim C1, amended. \<^verbatim>\<open>applyRegs\<close> is total: for every frame (of 14 bytes or of any other
  length, a missing byte reading as 0), every envelope state and every clock time it
  yields a state. Every frequency it applies is strictly positive. Every gain it
  applies to the tone paths and to the noise path lies in [0,1] when the user volume
  scalar of that path lies in [0,1].
\<close>

theorem C1_applyRegs_ranges:
  "0 < freq (chA (applyRegs rs now r)) \<and> 0 < freq (chB (applyRegs rs now r)) \<and>
   0 < freq (chC (applyRegs rs now r)) \<and> 0 < bpFreq (Noise (applyRegs rs now r)) \<and>
   (0 \<le> volUser (chA r) \<and> volUser (chA r) \<le> 1 \<longrightarrow>
      0 \<le> gain (chA (applyRegs rs now r)) \<and> gain (chA (applyRegs rs now r)) \<le> 1) \<and>
   (0 \<le> volUser (chB r) \<and> volUser (chB r) \<le> 1 \<longrightarrow>
      0 \<le> gain (chB (applyRegs rs now r)) \<and> gain (chB (applyRegs rs now r)) \<le> 1) \<and>
   (0 \<le> volUser (chC r) \<and> volUser (chC r) \<le> 1 \<longrightarrow>
      0 \<le> gain (chC (applyRegs rs now r)) \<and> gain (chC (applyRegs rs now r)) \<le> 1) \<and>
   (0 \<le> nvolUser (Noise r) \<and> nvolUser (Noise r) \<le> 1 \<longrightarrow>
      0 \<le> ngain (Noise (applyRegs rs now r)) \<and> ngain (Noise (applyRegs rs now r)) \<le> 1)"
proof -
  let ?e = "updateEnv rs now (env r)"
  have l: "0 \<le> level ?e" "level ?e \<le> 1"
    using updateEnv_level [of rs now "env r"] by simp_all
  have a: "0 \<le> volUser (chA r) \<and> volUser (chA r) \<le> 1 \<longrightarrow>
      0 \<le> gain (chA (applyRegs rs now r)) \<and> gain (chA (applyRegs rs now r)) \<le> 1"
    unfolding applyRegs_chA using l by (intro impI setVoice_gain_range) simp_all
  have b: "0 \<le> volUser (chB r) \<and> volUser (chB r) \<le> 1 \<longrightarrow>
      0 \<le> gain (chB (applyRegs rs now r)) \<and> gain (chB (applyRegs rs now r)) \<le> 1"
    unfolding applyRegs_chB using l by (intro impI setVoice_gain_range) simp_all
  have c: "0 \<le> volUser (chC r) \<and> volUser (chC r) \<le> 1 \<longrightarrow>
      0 \<le> gain (chC (applyRegs rs now r)) \<and> gain (chC (applyRegs rs now r)) \<le> 1"
    unfolding applyRegs_chC using l by (intro impI setVoice_gain_range) simp_all
  have n: "0 \<le> nvolUser (Noise r) \<and> nvolUser (Noise r) \<le> 1 \<longrightarrow>
      0 \<le> ngain (Noise (applyRegs rs now r)) \<and> ngain (Noise (applyRegs rs now r)) \<le> 1"
    by (simp add: applyRegs_Noise)
  have f: "0 < freq (chA (applyRegs rs now r))" "0 < freq (chB (applyRegs rs now r))"
    "0 < freq (chC (applyRegs rs now r))"
    by (simp_all only: applyRegs_chA applyRegs_chB applyRegs_chC setVoice_freq_pos)
  have g: "0 < bpFreq (Noise (applyRegs rs now r))"
    using num_noiseFreq [of rs] by (simp add: applyRegs_Noise)
  from f g a b c n show ?thesis by (simp only: simp_thms)
qed

text \<open>
  With the user volume 2 on channel A, which \<^verbatim>\<open>setUserControls\<close> stores as it is, the
  gain applied to channel A is 2.
\<close>

theorem C1_gain_above_one_counterexample:
  "volUser (chA loudA) = 2 \<and> length frameVolA15 = 14 \<and>
   gain (chA (applyRegs frameVolA15 0 loudA)) = 2 \<and>
   \<not> gain (chA (applyRegs frameVolA15 0 loudA)) \<le> 1"
  by (simp add: applyRegs_chA setVoice_def frameVolA15_path frameVolA15_envGain)
     (simp add: loudA_def loudControls_def setUserControls_def parseVol_def newReplayer_def
        mkVoice_def frameVolA15_def)

theorem C1_applyRegs_ranges_witness:
  "volUser (chA newReplayer) = 1 \<and> volUser (chB newReplayer) = 1 \<and>
   nvolUser (Noise newReplayer) = 15 / 100 \<and>
   0 \<le> gain (chA (applyRegs frameVolA15 0 newReplayer)) \<and>
   gain (chA (applyRegs frameVolA15 0 newReplayer)) \<le> 1 \<and>
   0 \<le> gain (chB (applyRegs frameVolA15 0 newReplayer)) \<and>
   ngain (Noise (applyRegs frameVolA15 0 newReplayer)) \<le> 1 \<and>
   0 < freq (chA (applyRegs frameVolA15 0 newReplayer)) \<and>
   0 < freq (chA (applyRegs frameVolA15 0 loudA))"
proof -
  have v: "volUser (chA newReplayer) = 1" "volUser (chB newReplayer) = 1"
    "nvolUser (Noise newReplayer) = 15 / 100"
    by (simp_all add: newReplayer_def mkVoice_def mkNoise_def)
  note c = C1_applyRegs_ranges [of frameVolA15 0 newReplayer]
  have a: "0 \<le> gain (chA (applyRegs frameVolA15 0 newReplayer)) \<and>
           gain (chA (applyRegs frameVolA15 0 newReplayer)) \<le> 1"
    using c v(1) by simp
  have b: "0 \<le> gain (chB (applyRegs frameVolA15 0 newReplayer))"
    using c v(2) by simp
  have n: "ngain (Noise (applyRegs frameVolA15 0 newReplayer)) \<le> 1"
    using c v(3) by simp
  have f: "0 < freq (chA (applyRegs frameVolA15 0 newReplayer))" using c by blast
  have g: "0 < freq (chA (applyRegs frameVolA15 0 loudA))"
    using C1_applyRegs_ranges [of frameVolA15 0 loudA] by blast
  from v a b n f g show ?thesis by (simp only: simp_thms)
qed

subsection \<open>C2\<close>

text \<open>
  Claim C2. A playback of the track \<open>fs\<close> is started at clock time \<open>ct0\<close> with a rate
  \<open>rt > 0\<close>, and the interval fires at the clock readings \<open>cts\<close>. At every moment the
  frames applied so far are the frames \<open>0, 1, ..., frameIdx - 1\<close>, each once and in
  this order, and the next tick time is \<open>ct0 + frameIdx / rt\<close>. Once the scheduler has
  stopped, all frames of the track have been applied, each exactly once, and it has
  stopped exactly once; while it runs it has not stopped. It does stop: a wake-up
  whose clock reading \<open>t\<close> has \<open>ct0 + length fs / rt < t + 0.08\<close> ends the playback.
  One wake-up applies frames while the next tick time is less than the clock reading
  plus 0.08 and the frame index is less than the length of the track, adding 1 to the
  frame index and \<open>spf = 1 / rt\<close> to the next tick time for each applied frame; it
  stops when the frame index has reached the length and the next tick time is inside
  the window; it does nothing when the next tick time is outside the window.
\<close>

theorem C2_lookahead_scheduler:
  assumes "0 < rt" and "s = wakeUps cts (startFrames fs rt ct0 s0)"
  shows "applied s = [0 ..< frameIdx s] \<and> frameIdx s \<le> length fs \<and>
         trackFrames s = fs \<and> spf s = 1 / rt \<and>
         nextTime s = ct0 + real (frameIdx s) * (1 / rt) \<and>
         (lookaheadId s \<longrightarrow> stops s = 0) \<and>
         (\<not> lookaheadId s \<longrightarrow> stops s = 1 \<and> applied s = [0 ..< length fs]) \<and>
         ((\<exists>t \<in> set cts. ct0 + real (length fs) / rt < t + ahead) \<longrightarrow> \<not> lookaheadId s) \<and>
         (lookaheadId u \<and> nextTime u < ct + ahead \<and> frameIdx u < length (trackFrames u) \<longrightarrow>
            wakeUp ct u =
              wakeUp ct (u\<lparr> rep := applyRegs (trackFrames u ! frameIdx u) ct (rep u),
                            applied := applied u @ [frameIdx u],
                            frameIdx := frameIdx u + 1,
                            nextTime := nextTime u + spf u \<rparr>)) \<and>
         (lookaheadId u \<and> nextTime u < ct + ahead \<and> length (trackFrames u) \<le> frameIdx u \<longrightarrow>
            wakeUp ct u = stopFrames u) \<and>
         (\<not> nextTime u < ct + ahead \<longrightarrow> wakeUp ct u = u) \<and>
         (lookaheadId u \<and> lookaheadId (wakeUp ct u) \<longrightarrow> \<not> nextTime (wakeUp ct u) < ct + ahead)"
proof -
  let ?s0 = "startFrames fs rt ct0 s0"
  have i: "schedInv ct0 s" unfolding assms(2) by (intro wakeUps_inv startFrames_inv)
  have f: "trackFrames s = fs" "spf s = 1 / rt"
    unfolding assms(2) by (simp_all add: wakeUps_fixed startFrames_fields)
  have 1: "applied s = [0 ..< frameIdx s]" "frameIdx s \<le> length fs"
    "nextTime s = ct0 + real (frameIdx s) * (1 / rt)"
    using i f by (simp_all add: schedInv_def)
  have 2: "lookaheadId s \<longrightarrow> stops s = 0"
    using i by (simp add: schedInv_def)
  have 3: "\<not> lookaheadId s \<longrightarrow> stops s = 1 \<and> applied s = [0 ..< length fs]"
    using i f by (simp add: schedInv_def)
  have 4: "(\<exists>t \<in> set cts. ct0 + real (length fs) / rt < t + ahead) \<longrightarrow> \<not> lookaheadId s"
  proof
    assume "\<exists>t \<in> set cts. ct0 + real (length fs) / rt < t + ahead"
    then have "\<exists>t \<in> set cts. ct0 + real (length (trackFrames ?s0)) * spf ?s0 < t + ahead"
      by (simp add: startFrames_fields)
    moreover have "0 \<le> spf ?s0" using assms(1) by (simp add: startFrames_fields)
    ultimately show "\<not> lookaheadId s"
      unfolding assms(2) by (intro wakeUps_completes [of ct0] startFrames_inv)
  qed
  from 1 f 2 3 4 wakeUp_steps [of u ct] show ?thesis by (simp only: simp_thms)
qed

theorem C2_lookahead_scheduler_witness:
  "(0 :: real) < 50 \<and> 0 + real (length fiveFrames) / 50 < 0.025 + ahead \<and>
   \<not> lookaheadId (wakeUps [0, 0.025] (startFrames fiveFrames 50 0 idlePlayer)) \<and>
   stops (wakeUps [0, 0.025] (startFrames fiveFrames 50 0 idlePlayer)) = 1 \<and>
   applied (wakeUps [0, 0.025] (startFrames fiveFrames 50 0 idlePlayer)) = [0, 1, 2, 3, 4] \<and>
   frameIdx (wakeUps [0] (startFrames fiveFrames 50 0 idlePlayer)) = 4 \<and>
   lookaheadId (wakeUps [0] (startFrames fiveFrames 50 0 idlePlayer))"
proof -
  let ?s = "wakeUps [0, 0.025] (startFrames fiveFrames 50 0 idlePlayer)"
  let ?s1 = "wakeUps [0] (startFrames fiveFrames 50 0 idlePlayer)"
  have r: "(0 :: real) < 50" by simp
  have l: "length fiveFrames = 5" by (simp add: fiveFrames_def)
  have w: "0 + real (length fiveFrames) / 50 < 0.025 + ahead" by (simp add: l ahead_def)
  have e: "\<exists>t \<in> set [0, 0.025]. 0 + real (length fiveFrames) / 50 < t + ahead"
    by (rule bexI [of _ "0.025"]) (use w in simp_all)
  note c = C2_lookahead_scheduler [OF r refl, of "[0, 0.025]" fiveFrames 0 idlePlayer]
  have a: "\<not> lookaheadId ?s" using c e by blast
  then have b: "stops ?s = 1" "applied ?s = [0 ..< length fiveFrames]" using c by blast+
  have u: "[0 ..< length fiveFrames] = [0, 1, 2, 3, 4]" by (simp add: l upt_rec)
  have d: "frameIdx ?s1 = 4 \<and> lookaheadId ?s1" by code_simp
  from r w a b d show ?thesis by (simp only: u simp_thms)
qed

subsection \<open>C3\<close>

text \<open>
  Claim C3. In a frame of 14 bytes the tone period of channel A, B, C is the 12-bit
  value made of the low byte (register 0, 2, 4) and the low nibble of the byte after
  it (register 1, 3, 5). The frequency applied to the channel is
  \<open>clock / (16 * period)\<close> when the period is not 0 and the positive floor 0.0001
  when it is 0. The gains do not read the period bytes: two frames that differ only in
  registers 0 to 5 apply the same gains and leave the same envelope state.
\<close>

theorem C3_tone_period_frequency:
  assumes "length rs = 14" and "drop 6 rs' = drop 6 rs"
  shows "uint (tonePer rs 0) = 256 * (uint (rs ! 1) mod 16) + uint (rs ! 0) \<and>
         uint (tonePer rs 2) = 256 * (uint (rs ! 3) mod 16) + uint (rs ! 2) \<and>
         uint (tonePer rs 4) = 256 * (uint (rs ! 5) mod 16) + uint (rs ! 4) \<and>
         uint (tonePer rs 0) < 2 ^ 12 \<and> uint (tonePer rs 2) < 2 ^ 12 \<and>
         uint (tonePer rs 4) < 2 ^ 12 \<and>
         sint (tonePer rs 0) = uint (tonePer rs 0) \<and>
         sint (tonePer rs 2) = uint (tonePer rs 2) \<and>
         sint (tonePer rs 4) = uint (tonePer rs 4) \<and>
         freq (chA (applyRegs rs now r)) =
           (if tonePer rs 0 \<noteq> 0 then 1000000 / (16 * real_of_int (sint (tonePer rs 0)))
            else 0.0001) \<and>
         freq (chB (applyRegs rs now r)) =
           (if tonePer rs 2 \<noteq> 0 then 1000000 / (16 * real_of_int (sint (tonePer rs 2)))
            else 0.0001) \<and>
         freq (chC (applyRegs rs now r)) =
           (if tonePer rs 4 \<noteq> 0 then 1000000 / (16 * real_of_int (sint (tonePer rs 4)))
            else 0.0001) \<and>
         gain (chA (applyRegs rs' now r)) = gain (chA (applyRegs rs now r)) \<and>
         gain (chB (applyRegs rs' now r)) = gain (chB (applyRegs rs now r)) \<and>
         gain (chC (applyRegs rs' now r)) = gain (chC (applyRegs rs now r)) \<and>
         ngain (Noise (applyRegs rs' now r)) = ngain (Noise (applyRegs rs now r)) \<and>
         env (applyRegs rs' now r) = env (applyRegs rs now r)"
proof -
  have p: "uint (tonePer rs 0) = 256 * (uint (rs ! 1) mod 16) + uint (rs ! 0)"
    "uint (tonePer rs 2) = 256 * (uint (rs ! 3) mod 16) + uint (rs ! 2)"
    "uint (tonePer rs 4) = 256 * (uint (rs ! 5) mod 16) + uint (rs ! 4)"
    using assms(1) by (simp_all add: uint_tonePer reg_nth)
  have b: "uint (tonePer rs 0) < 2 ^ 12" "uint (tonePer rs 2) < 2 ^ 12"
    "uint (tonePer rs 4) < 2 ^ 12"
    using tonePer_range [of rs 0] tonePer_range [of rs 2] tonePer_range [of rs 4] by simp_all
  have s: "sint (tonePer rs 0) = uint (tonePer rs 0)" "sint (tonePer rs 2) = uint (tonePer rs 2)"
    "sint (tonePer rs 4) = uint (tonePer rs 4)"
    using b by (simp_all add: sint_uint_small)
  have f: "freq (chA (applyRegs rs now r)) =
           (if tonePer rs 0 \<noteq> 0 then 1000000 / (16 * real_of_int (sint (tonePer rs 0)))
            else 0.0001)"
    "freq (chB (applyRegs rs now r)) =
           (if tonePer rs 2 \<noteq> 0 then 1000000 / (16 * real_of_int (sint (tonePer rs 2)))
            else 0.0001)"
    "freq (chC (applyRegs rs now r)) =
           (if tonePer rs 4 \<noteq> 0 then 1000000 / (16 * real_of_int (sint (tonePer rs 4)))
            else 0.0001)"
    by (simp_all add: applyRegs_chA applyRegs_chB applyRegs_chC setVoice_def toneFreq_def
          clock_def num_def)
  have g: "gain (chA (applyRegs rs' now r)) = gain (chA (applyRegs rs now r))"
    "gain (chB (applyRegs rs' now r)) = gain (chB (applyRegs rs now r))"
    "gain (chC (applyRegs rs' now r)) = gain (chC (applyRegs rs now r))"
    unfolding applyRegs_chA applyRegs_chB applyRegs_chC
    by (rule setVoice_gain_drop [OF assms(2)]; simp)+
  have n: "ngain (Noise (applyRegs rs' now r)) = ngain (Noise (applyRegs rs now r))"
    by (simp add: applyRegs_Noise noiseOn_drop [OF assms(2)])
  have e: "env (applyRegs rs' now r) = env (applyRegs rs now r)"
    by (simp add: applyRegs_env updateEnv_drop [OF assms(2)])
  from p b s f g n e show ?thesis by (simp only: simp_thms)
qed

theorem C3_tone_period_frequency_witness:
  "length frameTones = 14 \<and> drop 6 frameVolA15 = drop 6 frameTones \<and>
   uint (tonePer frameTones 0) = 256 * 2 + 52 \<and>
   tonePer frameTones 2 = 0 \<and>
   freq (chA (applyRegs frameTones 0 newReplayer)) = 1000000 / (16 * 564) \<and>
   freq (chB (applyRegs frameTones 0 newReplayer)) = 0.0001 \<and>
   gain (chA (applyRegs frameVolA15 0 newReplayer)) = gain (chA (applyRegs frameTones 0 newReplayer)) \<and>
   gain (chB (applyRegs frameVolA15 0 newReplayer)) = gain (chB (applyRegs frameTones 0 newReplayer))"
proof -
  have h: "length frameTones = 14" "drop 6 frameVolA15 = drop 6 frameTones"
    by (simp_all add: frameTones_def frameVolA15_def)
  note c = C3_tone_period_frequency [OF h, of 0 newReplayer]
  have "freq (chA (applyRegs frameTones 0 newReplayer)) =
           (if tonePer frameTones 0 \<noteq> 0
            then 1000000 / (16 * real_of_int (sint (tonePer frameTones 0))) else 0.0001)"
    using c by blast
  then have a: "freq (chA (applyRegs frameTones 0 newReplayer)) = 1000000 / (16 * 564)"
    by (simp add: frameTones_per)
  have "freq (chB (applyRegs frameTones 0 newReplayer)) =
           (if tonePer frameTones 2 \<noteq> 0
            then 1000000 / (16 * real_of_int (sint (tonePer frameTones 2))) else 0.0001)"
    using c by blast
  then have b: "freq (chB (applyRegs frameTones 0 newReplayer)) = 0.0001"
    by (simp add: frameTones_per)
  have g: "gain (chA (applyRegs frameVolA15 0 newReplayer)) = gain (chA (applyRegs frameTones 0 newReplayer))"
    "gain (chB (applyRegs frameVolA15 0 newReplayer)) = gain (chB (applyRegs frameTones 0 newReplayer))"
    using c by blast+
  have u: "uint (tonePer frameTones 0) = 256 * 2 + 52"
    by (simp add: frameTones_per)
  from h a b g u frameTones_per(2) show ?thesis by (simp only: simp_thms)
qed

subsection \<open>C4\<close>

text \<open>
  Claim C4, amended. When the shape of the frame differs from the stored shape, or the
  period derived from the frame differs from the stored period by more than 1e-6,
  \<^verbatim>\<open>applyRegs\<close> stores the new shape and period, sets the phase to 0 and the level to 1
  and records the time. Otherwise it records the time, advances the phase by
  \<open>elapsed / period\<close>, where \<open>elapsed\<close> is the time since the recorded last update
  except that a recorded time of 0 counts as no elapsed time, and recomputes the level
  from the new phase and the shape. The level follows four wave families, each clamped
  to [0,1]: rising ramp (attack alone), rising ramp at double speed cut at 1 (attack
  and hold), symmetric triangle (alternate without hold), falling ramp (all other
  shapes).
\<close>

theorem C4_envelope_retrigger:
  "updateEnv rs now e =
     (if reg rs 13 AND 0x0F \<noteq> shape e \<or> \<bar>periodSec e - periodSecOf rs\<bar> > 1 / 1000000
      then e\<lparr> shape := reg rs 13 AND 0x0F, periodSec := periodSecOf rs, phase := 0,
                level := 1, lastUpdate := now \<rparr>
      else e\<lparr> lastUpdate := now,
               phase := phase e + (if lastUpdate e = 0 then 0 else now - lastUpdate e) / periodSec e,
               level := envelopeLevel
                 (phase e + (if lastUpdate e = 0 then 0 else now - lastUpdate e) / periodSec e)
                 (shape e) \<rparr>) \<and>
   env (applyRegs rs now r) = updateEnv rs now (env r) \<and>
   (bit sh 2 \<and> \<not> bit sh 1 \<and> \<not> bit sh 0 \<longrightarrow>
      envelopeLevel ph sh = max 0 (min 1 (jsMod1 ph))) \<and>
   (bit sh 2 \<and> \<not> bit sh 1 \<and> bit sh 0 \<longrightarrow>
      envelopeLevel ph sh = max 0 (min 1 (min 1 (jsMod1 ph * 2)))) \<and>
   (bit sh 1 \<and> \<not> bit sh 0 \<longrightarrow>
      envelopeLevel ph sh =
        max 0 (min 1 (if jsMod1 ph < 1 / 2 then jsMod1 ph * 2 else 2 - jsMod1 ph * 2))) \<and>
   ((\<not> bit sh 2 \<and> \<not> bit sh 1) \<or> (bit sh 1 \<and> bit sh 0) \<longrightarrow>
      envelopeLevel ph sh = max 0 (min 1 (1 - jsMod1 ph))) \<and>
   0 \<le> envelopeLevel ph sh \<and> envelopeLevel ph sh \<le> 1"
proof -
  have u: "updateEnv rs now e =
     (if reg rs 13 AND 0x0F \<noteq> shape e \<or> \<bar>periodSec e - periodSecOf rs\<bar> > 1 / 1000000
      then e\<lparr> shape := reg rs 13 AND 0x0F, periodSec := periodSecOf rs, phase := 0,
                level := 1, lastUpdate := now \<rparr>
      else e\<lparr> lastUpdate := now,
               phase := phase e + (if lastUpdate e = 0 then 0 else now - lastUpdate e) / periodSec e,
               level := envelopeLevel
                 (phase e + (if lastUpdate e = 0 then 0 else now - lastUpdate e) / periodSec e)
                 (shape e) \<rparr>)"
  proof (cases "reg rs 13 AND 0x0F \<noteq> shape e \<or> \<bar>periodSec e - periodSecOf rs\<bar> > 1 / 1000000")
    case True
    show ?thesis unfolding if_P [OF True] using True by (rule updateEnv_retrigger)
  next
    case False
    then have a: "reg rs 13 AND 0x0F = shape e" "\<bar>periodSec e - periodSecOf rs\<bar> \<le> 1 / 1000000"
      by simp_all
    show ?thesis unfolding if_not_P [OF False] using a by (rule updateEnv_advance(1))
  qed
  have f: "bit sh 2 \<and> \<not> bit sh 1 \<and> \<not> bit sh 0 \<longrightarrow>
      envelopeLevel ph sh = max 0 (min 1 (jsMod1 ph))"
    "bit sh 2 \<and> \<not> bit sh 1 \<and> bit sh 0 \<longrightarrow>
      envelopeLevel ph sh = max 0 (min 1 (min 1 (jsMod1 ph * 2)))"
    "bit sh 1 \<and> \<not> bit sh 0 \<longrightarrow>
      envelopeLevel ph sh =
        max 0 (min 1 (if jsMod1 ph < 1 / 2 then jsMod1 ph * 2 else 2 - jsMod1 ph * 2))"
    "(\<not> bit sh 2 \<and> \<not> bit sh 1) \<or> (bit sh 1 \<and> bit sh 0) \<longrightarrow>
      envelopeLevel ph sh = max 0 (min 1 (1 - jsMod1 ph))"
    by (rule impI, erule envelopeLevel_families)+
  show ?thesis
    using u applyRegs_env [of rs now r] f envelopeLevel_range [of ph sh]
    by (simp only: simp_thms)
qed


text \<open>
  The first frame is applied at clock time 0 and re-triggers the envelope; the same
  frame is applied again at clock time 1. Shape and period are unchanged, one second
  has elapsed, and the period is 32 microseconds, yet the phase stays 0.
\<close>

theorem C4_last_update_zero_counterexample:
  "reg frameZero 13 AND 0x0F = shape (env (afterFirst 0)) \<and>
   periodSec (env (afterFirst 0)) = periodSecOf frameZero \<and>
   lastUpdate (env (afterFirst 0)) = 0 \<and>
   phase (env (afterFirst 0)) + (1 - lastUpdate (env (afterFirst 0))) / periodSec (env (afterFirst 0))
     = 31250 \<and>
   phase (env (applyRegs frameZero 1 (afterFirst 0))) = 0"
  by (simp add: applyRegs_env env_afterFirst updateEnv_def frameZero_regs phaseDivisor_def)

theorem C4_envelope_retrigger_witness:
  "updateEnv frameZero 0 (env newReplayer) =
     \<lparr> periodSec = 32 / 1000000, shape = 0, phase = 0, level = 1, lastUpdate = 0 \<rparr> \<and>
   phase (updateEnv frameZero (1 + 16 / 1000000) (env (afterFirst 1))) = 1 / 2 \<and>
   level (updateEnv frameZero (1 + 16 / 1000000) (env (afterFirst 1))) = 1 / 2 \<and>
   envelopeLevel (9 / 4) 4 = 1 / 4 \<and> envelopeLevel (1 / 4) 5 = 1 / 2 \<and>
   envelopeLevel (3 / 4) 2 = 1 / 2 \<and> envelopeLevel (1 / 4) 0 = 3 / 4"
proof -
  have j: "jsMod1 (9 / 4) = 1 / 4" "jsMod1 (1 / 4) = 1 / 4" "jsMod1 (3 / 4) = 3 / 4"
    "jsMod1 (1 / 2) = 1 / 2"
    by (simp_all add: jsMod1_def)
  have 1: "updateEnv frameZero 0 (env newReplayer) =
     \<lparr> periodSec = 32 / 1000000, shape = 0, phase = 0, level = 1, lastUpdate = 0 \<rparr>"
    using C4_envelope_retrigger [of frameZero 0 "env newReplayer"]
    by (simp add: frameZero_regs newReplayer_def)
  have 0: "envelopeLevel (1 / 2) 0 = 1 / 2"
    using C4_envelope_retrigger [of frameZero 0 "env newReplayer" newReplayer 0 "1 / 2"]
    by (simp add: j)
  have 2: "phase (updateEnv frameZero (1 + 16 / 1000000) (env (afterFirst 1))) = 1 / 2"
    "level (updateEnv frameZero (1 + 16 / 1000000) (env (afterFirst 1))) = 1 / 2"
    using C4_envelope_retrigger [of frameZero "1 + 16 / 1000000" "env (afterFirst 1)"]
    by (simp_all add: frameZero_regs env_afterFirst 0)
  have 3: "envelopeLevel (9 / 4) 4 = 1 / 4"
    using C4_envelope_retrigger [of frameZero 0 "env newReplayer" newReplayer 4 "9 / 4"]
    by (simp add: j)
  have 4: "envelopeLevel (1 / 4) 5 = 1 / 2"
    using C4_envelope_retrigger [of frameZero 0 "env newReplayer" newReplayer 5 "1 / 4"]
    by (simp add: j)
  have 5: "envelopeLevel (3 / 4) 2 = 1 / 2"
    using C4_envelope_retrigger [of frameZero 0 "env newReplayer" newReplayer 2 "3 / 4"]
    by (simp add: j)
  have 6: "envelopeLevel (1 / 4) 0 = 3 / 4"
    using C4_envelope_retrigger [of frameZero 0 "env newReplayer" newReplayer 0 "1 / 4"]
    by (simp add: j)
  from 1 2 3 4 5 6 show ?thesis by (simp only: simp_thms)
qed

subsection \<open>C5\<close>

text \<open>
  Claim C5, amended. The user-control update never rejects its input and does not
  clamp: it stores each volume scalar it is given as it is (and keeps the stored one
  when none is given), and the mute flags. The voice bank does not clamp either: the
  gain applied to a tone path is the level times the user volume when the path is on,
  and 0 otherwise, and the gain applied to the noise path is the user volume of the
  noise path or 0; so each applied gain is bounded in absolute value by the user
  volume of its path, not by 1.
\<close>

theorem C5_volumes_stored_unclamped:
  "volUser (chA (setUserControls c r)) = (case volA c of Some v \<Rightarrow> v | None \<Rightarrow> volUser (chA r)) \<and>
   volUser (chB (setUserControls c r)) = (case volB c of Some v \<Rightarrow> v | None \<Rightarrow> volUser (chB r)) \<and>
   volUser (chC (setUserControls c r)) = (case volC c of Some v \<Rightarrow> v | None \<Rightarrow> volUser (chC r)) \<and>
   nvolUser (Noise (setUserControls c r)) = (case volN c of Some v \<Rightarrow> v | None \<Rightarrow> nvolUser (Noise r)) \<and>
   mute (chA (setUserControls c r)) = muteA c \<and>
   mute (chB (setUserControls c r)) = muteB c \<and>
   mute (chC (setUserControls c r)) = muteC c \<and>
   gain (chA (applyRegs rs now r)) =
     (if pathOn rs 0x01 8 (chA r) then envGain rs 8 (updateEnv rs now (env r)) * volUser (chA r) else 0) \<and>
   gain (chB (applyRegs rs now r)) =
     (if pathOn rs 0x02 9 (chB r) then envGain rs 9 (updateEnv rs now (env r)) * volUser (chB r) else 0) \<and>
   gain (chC (applyRegs rs now r)) =
     (if pathOn rs 0x04 10 (chC r) then envGain rs 10 (updateEnv rs now (env r)) * volUser (chC r) else 0) \<and>
   ngain (Noise (applyRegs rs now r)) = (if noiseOn rs r then nvolUser (Noise r) else 0) \<and>
   \<bar>gain (chA (applyRegs rs now r))\<bar> \<le> \<bar>volUser (chA r)\<bar> \<and>
   \<bar>gain (chB (applyRegs rs now r))\<bar> \<le> \<bar>volUser (chB r)\<bar> \<and>
   \<bar>gain (chC (applyRegs rs now r))\<bar> \<le> \<bar>volUser (chC r)\<bar> \<and>
   \<bar>ngain (Noise (applyRegs rs now r))\<bar> \<le> \<bar>nvolUser (Noise r)\<bar>"
proof -
  let ?e = "updateEnv rs now (env r)"
  have l: "0 \<le> level ?e" "level ?e \<le> 1"
    using updateEnv_level [of rs now "env r"] by simp_all
  have s: "volUser (chA (setUserControls c r)) = (case volA c of Some v \<Rightarrow> v | None \<Rightarrow> volUser (chA r))"
    "volUser (chB (setUserControls c r)) = (case volB c of Some v \<Rightarrow> v | None \<Rightarrow> volUser (chB r))"
    "volUser (chC (setUserControls c r)) = (case volC c of Some v \<Rightarrow> v | None \<Rightarrow> volUser (chC r))"
    "nvolUser (Noise (setUserControls c r)) = (case volN c of Some v \<Rightarrow> v | None \<Rightarrow> nvolUser (Noise r))"
    "mute (chA (setUserControls c r)) = muteA c"
    "mute (chB (setUserControls c r)) = muteB c"
    "mute (chC (setUserControls c r)) = muteC c"
    by (simp_all add: setUserControls_def parseVol_def)
  have g: "gain (chA (applyRegs rs now r)) =
     (if pathOn rs 0x01 8 (chA r) then envGain rs 8 ?e * volUser (chA r) else 0)"
   "gain (chB (applyRegs rs now r)) =
     (if pathOn rs 0x02 9 (chB r) then envGain rs 9 ?e * volUser (chB r) else 0)"
   "gain (chC (applyRegs rs now r)) =
     (if pathOn rs 0x04 10 (chC r) then envGain rs 10 ?e * volUser (chC r) else 0)"
   "ngain (Noise (applyRegs rs now r)) = (if noiseOn rs r then nvolUser (Noise r) else 0)"
    by (simp_all add: applyRegs_chA applyRegs_chB applyRegs_chC applyRegs_Noise setVoice_def)
  have b: "\<bar>gain (chA (applyRegs rs now r))\<bar> \<le> \<bar>volUser (chA r)\<bar>"
    "\<bar>gain (chB (applyRegs rs now r))\<bar> \<le> \<bar>volUser (chB r)\<bar>"
    "\<bar>gain (chC (applyRegs rs now r))\<bar> \<le> \<bar>volUser (chC r)\<bar>"
    unfolding applyRegs_chA applyRegs_chB applyRegs_chC
    by (rule setVoice_gain_abs [OF l])+
  have "\<bar>ngain (Noise (applyRegs rs now r))\<bar> \<le> \<bar>nvolUser (Noise r)\<bar>"
    by (simp add: applyRegs_Noise)
  with s g b show ?thesis by (simp only: simp_thms)
qed

text \<open>
  With the volumes 2 for channel A and 3 for the noise path, the stored scalars are 2
  and 3 and the gains applied for a frame with channel A at full volume are 2 and 3.
\<close>

theorem C5_no_clamp_counterexample:
  "volA loudControls = Some 2 \<and> volN loudControls = Some 3 \<and>
   volUser (chA (setUserControls loudControls newReplayer)) = 2 \<and>
   nvolUser (Noise (setUserControls loudControls newReplayer)) = 3 \<and>
   gain (chA (applyRegs frameVolA15 0 (setUserControls loudControls newReplayer))) = 2 \<and>
   ngain (Noise (applyRegs frameVolA15 0 (setUserControls loudControls newReplayer))) = 3"
  by (simp add: applyRegs_chA applyRegs_Noise setVoice_def frameVolA15_path frameVolA15_envGain
        frameVolA15_noiseOn)
     (simp add: loudControls_def setUserControls_def parseVol_def newReplayer_def mkVoice_def mkNoise_def)

theorem C5_volumes_stored_unclamped_witness:
  "volUser (chA (setUserControls loudControls newReplayer)) = 2 \<and>
   volUser (chB (setUserControls loudControls newReplayer)) = 1 \<and>
   nvolUser (Noise (setUserControls loudControls newReplayer)) = 3 \<and>
   gain (chA (applyRegs frameVolA15 0 loudA)) = 2 \<and>
   \<bar>gain (chB (applyRegs frameVolA15 0 loudA))\<bar> \<le> 1"
proof -
  note a = C5_volumes_stored_unclamped [of loudControls newReplayer frameVolA15 0]
  note b = C5_volumes_stored_unclamped [of loudControls loudA frameVolA15 0]
  have v: "volUser (chA loudA) = 2" "volUser (chB loudA) = 1" "\<not> mute (chA loudA)"
    by (simp_all add: loudA_def loudControls_def setUserControls_def parseVol_def
          newReplayer_def mkVoice_def)
  have "volUser (chA (setUserControls loudControls newReplayer)) =
          (case volA loudControls of Some v \<Rightarrow> v | None \<Rightarrow> volUser (chA newReplayer))"
    using a by blast
  then have 1: "volUser (chA (setUserControls loudControls newReplayer)) = 2"
    by (simp add: loudControls_def)
  have "volUser (chB (setUserControls loudControls newReplayer)) =
          (case volB loudControls of Some v \<Rightarrow> v | None \<Rightarrow> volUser (chB newReplayer))"
    using a by blast
  then have 2: "volUser (chB (setUserControls loudControls newReplayer)) = 1"
    by (simp add: loudControls_def newReplayer_def mkVoice_def)
  have "nvolUser (Noise (setUserControls loudControls newReplayer)) =
          (case volN loudControls of Some v \<Rightarrow> v | None \<Rightarrow> nvolUser (Noise newReplayer))"
    using a by blast
  then have 3: "nvolUser (Noise (setUserControls loudControls newReplayer)) = 3"
    by (simp add: loudControls_def)
  have "gain (chA (applyRegs frameVolA15 0 loudA)) =
     (if pathOn frameVolA15 0x01 8 (chA loudA)
      then envGain frameVolA15 8 (updateEnv frameVolA15 0 (env loudA)) * volUser (chA loudA) else 0)"
    using b by blast
  then have 4: "gain (chA (applyRegs frameVolA15 0 loudA)) = 2"
    by (simp add: frameVolA15_path frameVolA15_envGain v)
  have "\<bar>gain (chB (applyRegs frameVolA15 0 loudA))\<bar> \<le> \<bar>volUser (chB loudA)\<bar>"
    using b by blast
  then have 5: "\<bar>gain (chB (applyRegs frameVolA15 0 loudA))\<bar> \<le> 1"
    by (simp add: v)
  from 1 2 3 4 5 show ?thesis by (simp only: simp_thms)
qed

subsection \<open>C6\<close>

text \<open>
  Claim C6, amended. When the first four bytes are not one of the tags \<open>YM5!\<close>,
  \<open>YM6!\<close>, \<open>YM3!\<close>, \<^verbatim>\<open>parseYM\<close> fails with an error that carries the tag and builds no
  track. Whenever \<^verbatim>\<open>loadAndParse\<close> fails, the load button leaves the replayer as it is,
  so the track loaded before stays loaded, and reports the error. Truncated register
  data is not an error: with a supported tag \<^verbatim>\<open>parseYM\<close> always returns a track with
  as many frames as the header declares (none for a negative count), the frame \<open>k\<close>
  being the bytes from \<open>offset + 16 * k\<close> up to 16 of them, fewer or none where the
  data ends before.
\<close>

theorem C6_load_errors:
  "(tagOf bytes \<notin> set supportedTags \<longrightarrow> parseYM bytes = Inl (UnsupportedYM (tagOf bytes))) \<and>
   (loadAndParse unlha f = Inl e \<longrightarrow> loadClick unlha (Some f) r = (r, Some e)) \<and>
   (\<not> suffix ''.lzh'' (map lowerChar (fname f)) \<and> \<not> suffix ''.lha'' (map lowerChar (fname f)) \<and>
    suffix ''.ym'' (map lowerChar (fname f)) \<and> tagOf (fbytes f) \<notin> set supportedTags \<longrightarrow>
      loadClick unlha (Some f) r = (r, Some (UnsupportedYM (tagOf (fbytes f))))) \<and>
   (tagOf bytes \<in> set supportedTags \<longrightarrow>
      (\<exists>p. parseYM bytes = Inr p \<and> version (meta p) = tagOf bytes \<and>
           mframes (meta p) = frameCount bytes \<and>
           length (pframes p) = nat (frameCount bytes) \<and>
           (\<forall>k < nat (frameCount bytes).
              pframes p ! k = take 16 (drop (dataOffset bytes + 16 * k) bytes) \<and>
              length (pframes p ! k) = min 16 (length bytes - (dataOffset bytes + 16 * k)))))"
proof -
  have 1: "tagOf bytes \<notin> set supportedTags \<longrightarrow> parseYM bytes = Inl (UnsupportedYM (tagOf bytes))"
    by (simp add: parseYM_bad_tag)
  have 2: "loadAndParse unlha f = Inl e \<longrightarrow> loadClick unlha (Some f) r = (r, Some e)"
    by (simp add: loadClick_error)
  have 3: "\<not> suffix ''.lzh'' (map lowerChar (fname f)) \<and> \<not> suffix ''.lha'' (map lowerChar (fname f)) \<and>
    suffix ''.ym'' (map lowerChar (fname f)) \<and> tagOf (fbytes f) \<notin> set supportedTags \<longrightarrow>
      loadClick unlha (Some f) r = (r, Some (UnsupportedYM (tagOf (fbytes f))))"
  proof
    assume a: "\<not> suffix ''.lzh'' (map lowerChar (fname f)) \<and> \<not> suffix ''.lha'' (map lowerChar (fname f)) \<and>
    suffix ''.ym'' (map lowerChar (fname f)) \<and> tagOf (fbytes f) \<notin> set supportedTags"
    then have "loadAndParse unlha f = parseYM (fbytes f)" by (intro loadAndParse_ym) simp_all
    also have "\<dots> = Inl (UnsupportedYM (tagOf (fbytes f)))" using a by (intro parseYM_bad_tag) simp
    finally show "loadClick unlha (Some f) r = (r, Some (UnsupportedYM (tagOf (fbytes f))))"
      by (rule loadClick_error)
  qed
  have 4: "tagOf bytes \<in> set supportedTags \<longrightarrow>
      (\<exists>p. parseYM bytes = Inr p \<and> version (meta p) = tagOf bytes \<and>
           mframes (meta p) = frameCount bytes \<and>
           length (pframes p) = nat (frameCount bytes) \<and>
           (\<forall>k < nat (frameCount bytes).
              pframes p ! k = take 16 (drop (dataOffset bytes + 16 * k) bytes) \<and>
              length (pframes p ! k) = min 16 (length bytes - (dataOffset bytes + 16 * k))))"
  proof
    assume "tagOf bytes \<in> set supportedTags"
    then show "\<exists>p. parseYM bytes = Inr p \<and> version (meta p) = tagOf bytes \<and>
           mframes (meta p) = frameCount bytes \<and>
           length (pframes p) = nat (frameCount bytes) \<and>
           (\<forall>k < nat (frameCount bytes).
              pframes p ! k = take 16 (drop (dataOffset bytes + 16 * k) bytes) \<and>
              length (pframes p ! k) = min 16 (length bytes - (dataOffset bytes + 16 * k)))"
      by (simp add: parseYM_good_tag slice_def regsPerFrame_def mult.commute min.commute)
  qed
  from 1 2 3 4 show ?thesis by (simp only: simp_thms)
qed

text \<open>
  The truncated file is parsed without an error into a track of two frames, the first
  with 12 register bytes and the second with none, and the load button replaces the
  track loaded before by it.
\<close>

theorem C6_truncated_counterexample:
  "tagOf truncatedYM = ''YM5!'' \<and> frameCount truncatedYM = 2 \<and> length truncatedYM = 28 \<and>
   parseYM truncatedYM =
     Inr \<lparr> meta = \<lparr> version = ''YM5!'', mframes = 2, mrate = 50 \<rparr>,
           pframes = [replicate 12 7, []] \<rparr> \<and>
   frames loaded = [frameVolA15] \<and>
   frames (fst (loadClick noArchive (Some \<lparr> fname = ''TUNE.YM'', fbytes = truncatedYM \<rparr>) loaded))
     = [replicate 12 7, []] \<and>
   snd (loadClick noArchive (Some \<lparr> fname = ''TUNE.YM'', fbytes = truncatedYM \<rparr>) loaded) = None"
  by code_simp

theorem C6_load_errors_witness:
  "tagOf badTagYM = ''YM7!'' \<and> tagOf badTagYM \<notin> set supportedTags \<and>
   parseYM badTagYM = Inl (UnsupportedYM ''YM7!'') \<and>
   loadClick noArchive (Some \<lparr> fname = ''TUNE.YM'', fbytes = badTagYM \<rparr>) loaded
     = (loaded, Some (UnsupportedYM ''YM7!'')) \<and>
   loadClick noArchive (Some \<lparr> fname = ''tune.lzh'', fbytes = badTagYM \<rparr>) loaded
     = (loaded, Some NoYMInArchive) \<and>
   tagOf truncatedYM \<in> set supportedTags \<and>
   (\<exists>p. parseYM truncatedYM = Inr p \<and> length (pframes p) = 2 \<and> length (pframes p ! 0) = 12)"
proof -
  let ?f = "\<lparr> fname = ''TUNE.YM'', fbytes = badTagYM \<rparr>"
  let ?g = "\<lparr> fname = ''tune.lzh'', fbytes = badTagYM \<rparr>"
  have t: "tagOf badTagYM = ''YM7!''" by code_simp
  have h1: "tagOf badTagYM \<notin> set supportedTags" by code_simp
  have h2: "\<not> suffix ''.lzh'' (map lowerChar (fname ?f)) \<and> \<not> suffix ''.lha'' (map lowerChar (fname ?f)) \<and>
    suffix ''.ym'' (map lowerChar (fname ?f)) \<and> tagOf (fbytes ?f) \<notin> set supportedTags"
    by code_simp
  have h3: "loadAndParse noArchive ?g = Inl NoYMInArchive" by code_simp
  have h4: "tagOf truncatedYM \<in> set supportedTags" by code_simp
  have n: "frameCount truncatedYM = 2" "dataOffset truncatedYM = 16" "length truncatedYM = 28"
    by code_simp+
  have a: "parseYM badTagYM = Inl (UnsupportedYM ''YM7!'')"
    using C6_load_errors [of badTagYM] h1 t by simp
  have b: "loadClick noArchive (Some ?f) loaded = (loaded, Some (UnsupportedYM ''YM7!''))"
    using C6_load_errors [of badTagYM noArchive ?f _ loaded] h2 t by simp
  have c: "loadClick noArchive (Some ?g) loaded = (loaded, Some NoYMInArchive)"
    using C6_load_errors [of badTagYM noArchive ?g NoYMInArchive loaded] h3 by blast
  have "\<exists>p. parseYM truncatedYM = Inr p \<and> version (meta p) = tagOf truncatedYM \<and>
           mframes (meta p) = frameCount truncatedYM \<and>
           length (pframes p) = nat (frameCount truncatedYM) \<and>
           (\<forall>k < nat (frameCount truncatedYM).
              pframes p ! k = take 16 (drop (dataOffset truncatedYM + 16 * k) truncatedYM) \<and>
              length (pframes p ! k) =
                min 16 (length truncatedYM - (dataOffset truncatedYM + 16 * k)))"
    using C6_load_errors [of truncatedYM noArchive ?f NoYMInArchive loaded] h4 by blast
  then obtain p where p: "parseYM truncatedYM = Inr p" "length (pframes p) = 2"
    and k: "\<forall>k < 2. length (pframes p ! k) = min 16 (28 - (16 + 16 * k))"
    by (auto simp: n)
  from k have "length (pframes p ! 0) = 12" by simp
  with p have d: "\<exists>p. parseYM truncatedYM = Inr p \<and> length (pframes p) = 2 \<and> length (pframes p ! 0) = 12"
    by blast
  from t h1 a b c h4 d show ?thesis by (simp only: simp_thms)
qed

subsection \<open>C7\<close>

text \<open>
  Claim C7, amended. When the shape and the period of the frame are those stored (the
  period within 1e-6), \<^verbatim>\<open>applyRegs\<close> keeps them and the phase does not decrease as long
  as the clock has not gone back; it strictly increases when the clock has advanced
  since a recorded last update other than 0, and it stays as it is when the clock
  reading equals the recorded one (two frames applied in one wake-up) or when the
  recorded last update is 0. The stored phase is never wrapped; the level is computed
  from the phase modulo 1 and is a continuous function of the phase at every phase
  that is not a whole number.
\<close>

theorem C7_phase_monotone_level_continuous:
  assumes "reg rs 13 AND 0x0F = shape e"
    and "\<bar>periodSec e - periodSecOf rs\<bar> \<le> 1 / 1000000"
  shows "shape (updateEnv rs now e) = shape e \<and>
         periodSec (updateEnv rs now e) = periodSec e \<and>
         (lastUpdate e \<le> now \<longrightarrow> phase e \<le> phase (updateEnv rs now e)) \<and>
         (lastUpdate e \<noteq> 0 \<and> lastUpdate e < now \<longrightarrow> phase e < phase (updateEnv rs now e)) \<and>
         (lastUpdate e = 0 \<or> lastUpdate e = now \<longrightarrow> phase (updateEnv rs now e) = phase e) \<and>
         level (updateEnv rs now e) = envelopeLevel (phase (updateEnv rs now e)) (shape e) \<and>
         (x \<notin> \<int> \<longrightarrow> isCont (\<lambda>ph. envelopeLevel ph sh) x)"
proof -
  note u = updateEnv_advance(1) [OF assms, of now]
  have p: "0 < periodSec e" using assms by (rule updateEnv_advance(2))
  have ph: "phase (updateEnv rs now e) =
              phase e + (if lastUpdate e = 0 then 0 else now - lastUpdate e) / periodSec e"
    by (simp add: u)
  have 1: "shape (updateEnv rs now e) = shape e" "periodSec (updateEnv rs now e) = periodSec e"
    by (simp_all add: u)
  have 2: "lastUpdate e \<le> now \<longrightarrow> phase e \<le> phase (updateEnv rs now e)"
    using p by (simp add: ph)
  have 3: "lastUpdate e \<noteq> 0 \<and> lastUpdate e < now \<longrightarrow> phase e < phase (updateEnv rs now e)"
    using p by (simp add: ph)
  have 4: "lastUpdate e = 0 \<or> lastUpdate e = now \<longrightarrow> phase (updateEnv rs now e) = phase e"
    by (auto simp: ph)
  have 5: "level (updateEnv rs now e) = envelopeLevel (phase (updateEnv rs now e)) (shape e)"
    by (simp add: u)
  have 6: "x \<notin> \<int> \<longrightarrow> isCont (\<lambda>ph. envelopeLevel ph sh) x"
    by (rule impI, erule envelopeLevel_isCont)
  from 1 2 3 4 5 6 show ?thesis by (simp only: simp_thms)
qed

text \<open>
  The same frame is applied twice at the clock reading 1, as in one wake-up of the
  lookahead scheduler: shape and period are unchanged and the phase does not increase.
\<close>

theorem C7_same_clock_counterexample:
  "reg frameZero 13 AND 0x0F = shape (env (afterFirst 1)) \<and>
   periodSec (env (afterFirst 1)) = periodSecOf frameZero \<and>
   shape (env (applyRegs frameZero 1 (afterFirst 1))) = shape (env (afterFirst 1)) \<and>
   periodSec (env (applyRegs frameZero 1 (afterFirst 1))) = periodSec (env (afterFirst 1)) \<and>
   phase (env (applyRegs frameZero 1 (afterFirst 1))) = phase (env (afterFirst 1)) \<and>
   \<not> phase (env (afterFirst 1)) < phase (env (applyRegs frameZero 1 (afterFirst 1)))"
  by (simp add: applyRegs_env env_afterFirst updateEnv_def frameZero_regs phaseDivisor_def)

theorem C7_phase_monotone_level_continuous_witness:
  "reg frameZero 13 AND 0x0F = shape (env (afterFirst 1)) \<and>
   \<bar>periodSec (env (afterFirst 1)) - periodSecOf frameZero\<bar> \<le> 1 / 1000000 \<and>
   phase (env (afterFirst 1)) < phase (updateEnv frameZero (1 + 16 / 1000000) (env (afterFirst 1))) \<and>
   phase (updateEnv frameZero 1 (env (afterFirst 1))) = phase (env (afterFirst 1)) \<and>
   isCont (\<lambda>ph. envelopeLevel ph 4) (1 / 2)"
proof -
  have h: "reg frameZero 13 AND 0x0F = shape (env (afterFirst 1))"
    "\<bar>periodSec (env (afterFirst 1)) - periodSecOf frameZero\<bar> \<le> 1 / 1000000"
    by (simp_all add: env_afterFirst frameZero_regs)
  have l: "lastUpdate (env (afterFirst 1)) = 1" by (simp add: env_afterFirst)
  have a: "phase (env (afterFirst 1)) < phase (updateEnv frameZero (1 + 16 / 1000000) (env (afterFirst 1)))"
    using C7_phase_monotone_level_continuous [OF h, of "1 + 16 / 1000000"] by (simp add: l)
  have b: "phase (updateEnv frameZero 1 (env (afterFirst 1))) = phase (env (afterFirst 1))"
    using C7_phase_monotone_level_continuous [OF h, of 1] by (simp add: l)
  have c: "isCont (\<lambda>ph. envelopeLevel ph 4) (1 / 2)"
    using C7_phase_monotone_level_continuous [OF h, of 1 "1 / 2" 4] half_not_int by blast
  from h a b c show ?thesis by (simp only: simp_thms)
qed

subsection \<open>C8\<close>

text \<open>
  Claim C8. For every phase (also above 1, and negative) and every shape code the level
  lies in [0,1], and it is the level of the phase taken modulo 1: the remainder is less
  than 1 in absolute value and differs from the phase by a whole number.
\<close>

theorem C8_envelopeLevel_mod_clamped:
  "0 \<le> envelopeLevel ph sh \<and> envelopeLevel ph sh \<le> 1 \<and>
   envelopeLevel ph sh = envelopeLevel (jsMod1 ph) sh \<and>
   \<bar>jsMod1 ph\<bar> < 1 \<and> (\<exists>k :: int. ph = of_int k + jsMod1 ph)"
proof -
  have "envelopeLevel ph sh = envelopeLevel (jsMod1 ph) sh"
    by (simp only: envelopeLevel_def jsMod1_idem)
  moreover have "\<bar>jsMod1 ph\<bar> < 1" using jsMod1_bounds [of ph] by linarith
  moreover have "\<exists>k :: int. ph = of_int k + jsMod1 ph"
    by (cases "0 \<le> ph") (auto simp: jsMod1_def)
  ultimately show ?thesis using envelopeLevel_range [of ph sh] by blast
qed

theorem C8_envelopeLevel_mod_clamped_witness:
  "0 \<le> envelopeLevel (9 / 4) 4 \<and> envelopeLevel (9 / 4) 4 \<le> 1 \<and>
   envelopeLevel (9 / 4) 4 = envelopeLevel (jsMod1 (9 / 4)) 4 \<and>
   jsMod1 (9 / 4) = 1 / 4 \<and> jsMod1 (- (9 / 4)) = - (1 / 4)"
proof -
  have "jsMod1 (9 / 4) = 1 / 4" "jsMod1 (- (9 / 4)) = - (1 / 4)"
    by (simp_all add: jsMod1_def)
  then show ?thesis
    using C8_envelopeLevel_mod_clamped [of "9 / 4" 4] by simp
qed

subsection \<open>C9\<close>

text \<open>
  Claim C9. \<^verbatim>\<open>play\<close> with a timer running returns the state as it is, \<^verbatim>\<open>play\<close> with an
  empty track returns the state as it is, and \<^verbatim>\<open>stop\<close> with no timer returns the state
  as it is; no path of \<^verbatim>\<open>play\<close> or \<^verbatim>\<open>stop\<close> throws. After \<^verbatim>\<open>stop\<close> no timer is stored, so
  a second \<^verbatim>\<open>stop\<close> changes nothing, and a stopped replayer with an empty track is
  still the same stopped replayer after \<^verbatim>\<open>stop\<close>, \<^verbatim>\<open>stop\<close>, \<^verbatim>\<open>play\<close>.
\<close>

theorem C9_transport_noops:
  "(timer r \<noteq> None \<longrightarrow> play r = r) \<and>
   (frames r = [] \<longrightarrow> play r = r) \<and>
   (timer r = None \<longrightarrow> stop r = r) \<and>
   timer (stop r) = None \<and>
   stop (stop r) = stop r \<and>
   (timer r = None \<and> frames r = [] \<longrightarrow> play (stop (stop r)) = r \<and> timer (play (stop (stop r))) = None)"
  by (simp add: play_def stop_def)

theorem C9_transport_noops_witness:
  "timer playing \<noteq> None \<and> play playing = playing \<and>
   frames newReplayer = [] \<and> play newReplayer = newReplayer \<and>
   timer loaded = None \<and> stop loaded = loaded \<and>
   stop (stop playing) = stop playing \<and>
   play (stop (stop newReplayer)) = newReplayer"
proof -
  have h: "timer playing \<noteq> None" "frames newReplayer = []" "timer loaded = None"
    "timer newReplayer = None"
    by (simp_all add: playing_fields loaded_fields newReplayer_def)
  from h C9_transport_noops [of playing] C9_transport_noops [of newReplayer]
    C9_transport_noops [of loaded]
  show ?thesis by blast
qed

subsection \<open>C10\<close>

text \<open>
  Claim C10. A 16-bit envelope period of 0 in registers 11 and 12 is replaced by 1, so
  the period in seconds derived from any frame is strictly positive; the divisor of the
  phase update is never 0, since a stored period of 0 is replaced by 0.001; and the
  period stored after any call of \<^verbatim>\<open>applyRegs\<close> is strictly positive.
\<close>

theorem C10_no_division_by_zero:
  "(envPeriodRaw rs = 0 \<longrightarrow> envPeriod rs = 1) \<and>
   (envPeriodRaw rs \<noteq> 0 \<longrightarrow> envPeriod rs = envPeriodRaw rs) \<and>
   1 \<le> num (envPeriod rs) \<and> 0 < periodSecOf rs \<and>
   phaseDivisor e \<noteq> 0 \<and>
   (periodSec e = 0 \<longrightarrow> phaseDivisor e = 0.001) \<and>
   0 < periodSec (updateEnv rs now e) \<and>
   phaseDivisor (updateEnv rs now e) = periodSec (updateEnv rs now e)"
proof -
  have "0 < periodSecOf rs" using periodSecOf_lower [of rs] by linarith
  moreover have "0 < periodSec (updateEnv rs now e)" by (rule updateEnv_periodSec_pos)
  moreover have "phaseDivisor e \<noteq> 0" by (simp add: phaseDivisor_def)
  ultimately show ?thesis
    using num_envPeriod [of rs] by (simp add: envPeriod_def phaseDivisor_def)
qed

theorem C10_no_division_by_zero_witness:
  "envPeriodRaw (frameZero) = 0 \<and> envPeriod (frameZero) = 1 \<and>
   1 \<le> num (envPeriod (frameZero)) \<and> 0 < periodSecOf (frameZero) \<and>
   periodSec (env newReplayer\<lparr> periodSec := 0 \<rparr>) = 0 \<and>
   phaseDivisor (env newReplayer\<lparr> periodSec := 0 \<rparr>) = 0.001"
  using C10_no_division_by_zero [of "frameZero" "env newReplayer\<lparr> periodSec := 0 \<rparr>" 0]
  by (simp add: envPeriodRaw_def reg_def frameZero_def num_def)

end
